theory Spec2Isabelle
  imports Main "HOL-Library.Sublist" "HOL-Library.Word"
begin

section \<open>JavaScript values and string operations\<close>

text \<open>
  The router and the stream code are TypeScript. Their strings are modelled as lists
  (\<open>string\<close> for the router's ASCII identifiers, lists of code points for decoded
  stream text), \<open>undefined\<close> as \<open>None\<close>, a thrown exception as the left summand
  of a sum, and every mutation as a returned state.
\<close>

datatype json =
    JNull
  | JBool bool
  | JNum int
  | JStr string
  | JArr "json list"
  | JObj "(string \<times> json) list"

datatype js_error = JsError (err_name: string) (err_code: "string option")

definition TypeError :: js_error where
  "TypeError = JsError ''TypeError'' None"

text \<open>Truthiness, as \<open>if (x)\<close> and \<open>x && y\<close> and \<open>x || y\<close> test it.\<close>

definition truthy_str :: "string option \<Rightarrow> bool" where
  "truthy_str s = (case s of None \<Rightarrow> False | Some t \<Rightarrow> t \<noteq> [])"

fun truthy_json :: "json \<Rightarrow> bool" where
  "truthy_json JNull = False"
| "truthy_json (JBool b) = b"
| "truthy_json (JNum n) = (n \<noteq> 0)"
| "truthy_json (JStr s) = (s \<noteq> [])"
| "truthy_json (JArr _) = True"
| "truthy_json (JObj _) = True"

text \<open>\<open>s.startsWith(p)\<close>, \<open>s.includes(sub)\<close> and \<open>s.split(sep)\<close> for a separator of one character.\<close>

definition startsWith :: "'a list \<Rightarrow> 'a list \<Rightarrow> bool" where
  "startsWith s p = prefix p s"

fun includes_str :: "'a list \<Rightarrow> 'a list \<Rightarrow> bool" where
  "includes_str [] sub = (sub = [])"
| "includes_str (c # cs) sub = (prefix sub (c # cs) \<or> includes_str cs sub)"

fun split_on :: "'a \<Rightarrow> 'a list \<Rightarrow> 'a list list" where
  "split_on sep [] = [[]]"
| "split_on sep (c # cs) =
     (if c = sep then [] # split_on sep cs
      else (case split_on sep cs of
              [] \<Rightarrow> [[c]]
            | w # ws \<Rightarrow> (c # w) # ws))"

text \<open>
  \<open>s.toLowerCase()\<close> on the ASCII letters; provider and model names are taken to be
  ASCII, every other character is left as it is.
\<close>

definition toLowerCaseChar :: "char \<Rightarrow> char" where
  "toLowerCaseChar c =
     (case map_of (zip ''ABCDEFGHIJKLMNOPQRSTUVWXYZ'' ''abcdefghijklmnopqrstuvwxyz'') c of
        None \<Rightarrow> c
      | Some l \<Rightarrow> l)"

definition toLowerCase :: "string \<Rightarrow> string" where
  "toLowerCase s = map toLowerCaseChar s"

text \<open>
  The first occurrence of \<open>sub\<close> in \<open>s\<close>: the text before it and the text after it.
\<close>

fun find_sub :: "'a list \<Rightarrow> 'a list \<Rightarrow> ('a list \<times> 'a list) option" where
  "find_sub sub [] = (if sub = [] then Some ([], []) else None)"
| "find_sub sub (c # cs) =
     (if prefix sub (c # cs) then Some ([], drop (length sub) (c # cs))
      else (case find_sub sub cs of
              None \<Rightarrow> None
            | Some (before, after) \<Rightarrow> Some (c # before, after)))"


section \<open>Token counting (\<open>router.ts\<close>, \<open>calculateTokenCount\<close>)\<close>

text \<open>
  The tokenizer (\<open>enc.encode(s).length\<close>, tiktoken) and \<open>JSON.stringify\<close> are library
  functions: they are the parameters \<open>tok\<close> and \<open>stringify\<close>. The loops are the
  source's \<open>forEach\<close> loops, each adding to the running \<open>tokenCount\<close>.
\<close>

datatype tool_result_content = TRString string | TRJson json

datatype content_part =
    TextPart string
  | ToolUsePart json
  | ToolResultPart tool_result_content
  | OtherPart

datatype message_content = ContentString string | ContentParts "content_part list"

record MessageParam =
  role :: string
  content :: message_content

datatype sys_text = SysTextString string | SysTextArray "string list"

record SystemTextBlock =
  sb_type :: string
  sb_text :: "sys_text option"

datatype SystemPrompt = SystemString string | SystemBlocks "SystemTextBlock list"

record Tool =
  tool_name :: string
  tool_type :: "string option"
  tool_description :: "string option"
  tool_input_schema :: "json option"

fun count_part :: "(string \<Rightarrow> nat) \<Rightarrow> (json \<Rightarrow> string) \<Rightarrow> nat \<Rightarrow> content_part \<Rightarrow> nat" where
  "count_part tok stringify tokenCount (TextPart t) = tokenCount + tok t"
| "count_part tok stringify tokenCount (ToolUsePart inp) = tokenCount + tok (stringify inp)"
| "count_part tok stringify tokenCount (ToolResultPart (TRString s)) = tokenCount + tok s"
| "count_part tok stringify tokenCount (ToolResultPart (TRJson j)) = tokenCount + tok (stringify j)"
| "count_part tok stringify tokenCount OtherPart = tokenCount"

definition count_message :: "(string \<Rightarrow> nat) \<Rightarrow> (json \<Rightarrow> string) \<Rightarrow> nat \<Rightarrow> MessageParam \<Rightarrow> nat" where
  "count_message tok stringify tokenCount message =
     (case content message of
        ContentString s \<Rightarrow> tokenCount + tok s
      | ContentParts parts \<Rightarrow> foldl (count_part tok stringify) tokenCount parts)"

definition count_system_item :: "(string \<Rightarrow> nat) \<Rightarrow> nat \<Rightarrow> SystemTextBlock \<Rightarrow> nat" where
  "count_system_item tok tokenCount item =
     (if sb_type item \<noteq> ''text'' then tokenCount
      else (case sb_text item of
              None \<Rightarrow> tokenCount
            | Some (SysTextString t) \<Rightarrow> tokenCount + tok t
            | Some (SysTextArray ts) \<Rightarrow> foldl (\<lambda>n textPart. n + tok textPart) tokenCount ts))"

definition count_tool :: "(string \<Rightarrow> nat) \<Rightarrow> (json \<Rightarrow> string) \<Rightarrow> nat \<Rightarrow> Tool \<Rightarrow> nat" where
  "count_tool tok stringify tokenCount tool =
     (let n1 = (case tool_description tool of
                  None \<Rightarrow> tokenCount
                | Some d \<Rightarrow> if d \<noteq> [] then tokenCount + tok (tool_name tool @ d) else tokenCount)
      in (case tool_input_schema tool of
            None \<Rightarrow> n1
          | Some schema \<Rightarrow> if truthy_json schema then n1 + tok (stringify schema) else n1))"

definition calculateTokenCount ::
  "(string \<Rightarrow> nat) \<Rightarrow> (json \<Rightarrow> string) \<Rightarrow>
   MessageParam list option \<Rightarrow> SystemPrompt option \<Rightarrow> Tool list option \<Rightarrow> nat" where
  "calculateTokenCount tok stringify messages system tools =
     (let n0 = 0;
          n1 = (case messages of
                  None \<Rightarrow> n0
                | Some ms \<Rightarrow> foldl (count_message tok stringify) n0 ms);
          n2 = (case system of
                  None \<Rightarrow> n1
                | Some (SystemString s) \<Rightarrow> n1 + tok s
                | Some (SystemBlocks items) \<Rightarrow> foldl (count_system_item tok) n1 items);
          n3 = (case tools of
                  None \<Rightarrow> n2
                | Some ts \<Rightarrow> foldl (count_tool tok stringify) n2 ts)
      in n3)"


section \<open>Route selection (\<open>router.ts\<close>, \<open>getUseModel\<close>)\<close>

record Provider =
  p_name :: string
  p_models :: "string list option"

record RouterConfig =
  rc_default :: string
  rc_background :: "string option"
  rc_think :: "string option"
  rc_longContext :: "string option"
  rc_longContextThreshold :: "int option"
  rc_webSearch :: "string option"
  rc_image :: "string option"

record AppConfig =
  Providers :: "Provider list"
  Router :: RouterConfig

record Usage =
  input_tokens :: int
  output_tokens :: int

record ThinkingConfig =
  thinking_type :: string
  budget_tokens :: "int option"

record RequestBody =
  model :: string
  messages :: "MessageParam list option"
  system :: "SystemPrompt option"
  tools :: "Tool list option"
  thinking :: "ThinkingConfig option"

record RouterRequest =
  body :: RequestBody
  sessionId :: "string option"

text \<open>
  What \<open>getUseModel\<close> writes to \<open>req.log.info\<close>: the long-context line carries the
  token count and the threshold, the background line the requested model.
\<close>

datatype log_entry =
    LogLongContext int int
  | LogBackground string
  | LogThink

text \<open>
  The file system as \<open>getProjectSpecificRouter\<close> sees it: the project a session
  belongs to (\<open>searchProjectBySession\<close>, with its cache), and the parsed content of
  a configuration file (\<open>readConfigFile\<close>: \<open>None\<close> when the file is missing or
  does not parse). A path is the list of the components handed to \<open>join\<close>.
\<close>

record FileConfig =
  fc_Router :: "RouterConfig option"

record FsEnv =
  searchProjectBySession :: "string \<Rightarrow> string option"
  readConfigFile :: "string list \<Rightarrow> FileConfig option"

definition HOME_DIR :: string where
  "HOME_DIR = ''~/.claude-code-router''"

definition getProjectSpecificRouter :: "FsEnv \<Rightarrow> RouterRequest \<Rightarrow> RouterConfig option" where
  "getProjectSpecificRouter env req =
     (case sessionId req of
        None \<Rightarrow> None
      | Some sid \<Rightarrow>
          if sid = [] then None
          else (case searchProjectBySession env sid of
                  None \<Rightarrow> None
                | Some project \<Rightarrow>
                    if project = [] then None
                    else
                      (let projectConfigPath = [HOME_DIR, project, ''config.json''];
                           sessionConfigPath = [HOME_DIR, project, sid @ ''.json''];
                           sessionRouter =
                             (case readConfigFile env sessionConfigPath of
                                None \<Rightarrow> None
                              | Some sessionConfig \<Rightarrow> fc_Router sessionConfig)
                       in (case sessionRouter of
                             Some r \<Rightarrow> Some r
                           | None \<Rightarrow>
                               (case readConfigFile env projectConfigPath of
                                  None \<Rightarrow> None
                                | Some projectConfig \<Rightarrow> fc_Router projectConfig)))))"

definition SUBAGENT_OPEN :: string where
  "SUBAGENT_OPEN = ''<CCR-SUBAGENT-MODEL>''"

definition SUBAGENT_CLOSE :: string where
  "SUBAGENT_CLOSE = ''</CCR-SUBAGENT-MODEL>''"

text \<open>
  Rule 3 reads \<open>req.body.system[1].text\<close>. On a string prompt \<open>system[1]\<close> is a
  character, whose \<open>text\<close> is undefined; on a block whose \<open>text\<close> is an array,
  \<open>startsWith\<close> is not a function and the call throws a TypeError. The regular
  expression (the opening tag, a lazy group of any characters, the closing tag, with
  the \<open>s\<close> flag) on a text that starts with the opening tag matches up to the first
  closing tag after it, and the \<open>replace\<close> removes that first occurrence, which is the
  start of the text.
\<close>

datatype subagent_result =
    SubagentNone
  | SubagentThrows js_error
  | SubagentModel string "SystemTextBlock list"

definition subagentModel :: "SystemPrompt option \<Rightarrow> subagent_result" where
  "subagentModel sys =
     (case sys of
        None \<Rightarrow> SubagentNone
      | Some (SystemString s) \<Rightarrow> SubagentNone
      | Some (SystemBlocks blocks) \<Rightarrow>
          if length blocks > 1 then
            (case sb_text (blocks ! 1) of
               None \<Rightarrow> SubagentNone
             | Some (SysTextArray ts) \<Rightarrow> SubagentThrows TypeError
             | Some (SysTextString t) \<Rightarrow>
                 if startsWith t SUBAGENT_OPEN then
                   (case find_sub SUBAGENT_CLOSE (drop (length SUBAGENT_OPEN) t) of
                      None \<Rightarrow> SubagentNone
                    | Some (m, rest) \<Rightarrow>
                        SubagentModel m
                          (blocks[1 := (blocks ! 1)\<lparr>sb_text := Some (SysTextString rest)\<rparr>]))
                 else SubagentNone)
          else SubagentNone)"

definition longContextThreshold_of :: "RouterConfig \<Rightarrow> int" where
  "longContextThreshold_of R =
     (case rc_longContextThreshold R of
        None \<Rightarrow> 60000
      | Some n \<Rightarrow> if n = 0 then 60000 else n)"

definition isWebSearchTool :: "Tool \<Rightarrow> bool" where
  "isWebSearchTool tool =
     (case tool_type tool of None \<Rightarrow> False | Some ty \<Rightarrow> startsWith ty ''web_search'')"

text \<open>
  The test \<open>cond && target\<close> of a rule's \<open>if\<close>, followed by \<open>return target\<close>:
  the target when the condition holds and the target is configured (a non-empty string).
\<close>

definition rule_target :: "bool \<Rightarrow> string option \<Rightarrow> string option" where
  "rule_target cond target =
     (if cond then (case target of None \<Rightarrow> None | Some t \<Rightarrow> if t \<noteq> [] then Some t else None)
      else None)"

text \<open>\<open>const Router = projectSpecificRouter || config.Router\<close>.\<close>

definition activeRouter :: "FsEnv \<Rightarrow> RouterRequest \<Rightarrow> AppConfig \<Rightarrow> RouterConfig" where
  "activeRouter env req config =
     (case getProjectSpecificRouter env req of Some r \<Rightarrow> r | None \<Rightarrow> Router config)"

definition getUseModel ::
  "FsEnv \<Rightarrow> RouterRequest \<Rightarrow> int \<Rightarrow> AppConfig \<Rightarrow> Usage option \<Rightarrow>
   js_error + (string \<times> RouterRequest \<times> log_entry list)" where
  "getUseModel env req tokenCount config lastUsage =
     (let R = activeRouter env req config
      in
      if includes_str (model (body req)) '','' then
        (case split_on CHR '','' (model (body req)) of
           provider # model_part # _ \<Rightarrow>
             (case find (\<lambda>p. toLowerCase (p_name p) = provider) (Providers config) of
                None \<Rightarrow> Inr (model (body req), req, [])
              | Some finalProvider \<Rightarrow>
                  (case p_models finalProvider of
                     None \<Rightarrow> Inr (model (body req), req, [])
                   | Some ms \<Rightarrow>
                       (case find (\<lambda>m. toLowerCase m = model_part) ms of
                          None \<Rightarrow> Inr (model (body req), req, [])
                        | Some finalModel \<Rightarrow>
                            if finalModel \<noteq> []
                            then Inr (p_name finalProvider @ '','' @ finalModel, req, [])
                            else Inr (model (body req), req, []))))
         | _ \<Rightarrow> Inr (model (body req), req, []))
      else
        (let longContextThreshold = longContextThreshold_of R;
             lastUsageThreshold =
               (case lastUsage of
                  None \<Rightarrow> False
                | Some u \<Rightarrow> input_tokens u > longContextThreshold \<and> tokenCount > 20000);
             tokenCountThreshold = (tokenCount > longContextThreshold)
         in
         case rule_target (lastUsageThreshold \<or> tokenCountThreshold) (rc_longContext R) of
           Some target \<Rightarrow> Inr (target, req, [LogLongContext tokenCount longContextThreshold])
         | None \<Rightarrow>
         (case subagentModel (system (body req)) of
            SubagentThrows e \<Rightarrow> Inl e
          | SubagentModel m blocks' \<Rightarrow>
              Inr (m, req\<lparr>body := (body req)\<lparr>system := Some (SystemBlocks blocks')\<rparr>\<rparr>, [])
          | SubagentNone \<Rightarrow>
         (case rule_target (includes_str (model (body req)) ''claude''
                            \<and> includes_str (model (body req)) ''haiku'')
                           (rc_background (Router config)) of
            Some target \<Rightarrow> Inr (target, req, [LogBackground (model (body req))])
          | None \<Rightarrow>
         (case rule_target (case tools (body req) of
                              None \<Rightarrow> False
                            | Some ts \<Rightarrow> list_ex isWebSearchTool ts)
                           (rc_webSearch R) of
            Some target \<Rightarrow> Inr (target, req, [])
          | None \<Rightarrow>
         (case rule_target (thinking (body req) \<noteq> None) (rc_think R) of
            Some target \<Rightarrow> Inr (target, req, [LogThink])
          | None \<Rightarrow> Inr (rc_default R, req, [])))))))"


section \<open>The event parser (\<open>SSEParser.transform.ts\<close>)\<close>

subsection \<open>Decoded text\<close>

text \<open>
  A chunk is a \<open>Uint8Array\<close>. Decoded text is a list of Unicode code points (a
  JavaScript string holds UTF-16 code units; the parser only splits at line feeds, trims
  white space and cuts off ASCII prefixes, which reads the same on code points).
\<close>

type_synonym byte = "8 word"
type_synonym jstring = "nat list"

definition ascii :: "string \<Rightarrow> jstring" where
  "ascii s = map of_char s"

text \<open>
  \<open>new TextDecoder().decode(chunk)\<close>: the UTF-8 decoder of the Encoding standard, run
  on the chunk alone (no \<open>stream\<close> option, and a new decoder for every chunk). A lead
  byte opens a sequence with the number of continuation bytes it needs and the range
  allowed for the next byte; a byte outside that range ends the sequence with U+FFFD and
  is read again as a first byte; a sequence still open at the end of the chunk gives
  U+FFFD. A leading byte order mark is dropped.
\<close>

datatype utf8_lead =
    LeadAscii nat
  | LeadMulti nat nat nat nat
  | LeadBad

definition utf8_lead_of :: "nat \<Rightarrow> utf8_lead" where
  "utf8_lead_of b =
     (if b \<le> 0x7F then LeadAscii b
      else if 0xC2 \<le> b \<and> b \<le> 0xDF then LeadMulti (b mod 32) 1 0x80 0xBF
      else if 0xE0 \<le> b \<and> b \<le> 0xEF then
        LeadMulti (b mod 16) 2 (if b = 0xE0 then 0xA0 else 0x80) (if b = 0xED then 0x9F else 0xBF)
      else if 0xF0 \<le> b \<and> b \<le> 0xF4 then
        LeadMulti (b mod 8) 3 (if b = 0xF0 then 0x90 else 0x80) (if b = 0xF4 then 0x8F else 0xBF)
      else LeadBad)"

fun utf8_decode :: "(nat \<times> nat \<times> nat \<times> nat) option \<Rightarrow> byte list \<Rightarrow> jstring" where
  "utf8_decode None [] = []"
| "utf8_decode (Some pending) [] = [0xFFFD]"
| "utf8_decode None (b # bs) =
     (case utf8_lead_of (unat b) of
        LeadAscii c \<Rightarrow> c # utf8_decode None bs
      | LeadMulti cp needed lower upper \<Rightarrow> utf8_decode (Some (cp, needed, lower, upper)) bs
      | LeadBad \<Rightarrow> 0xFFFD # utf8_decode None bs)"
| "utf8_decode (Some (cp, needed, lower, upper)) (b # bs) =
     (if lower \<le> unat b \<and> unat b \<le> upper then
        (if needed = 1 then (cp * 64 + unat b mod 64) # utf8_decode None bs
         else utf8_decode (Some (cp * 64 + unat b mod 64, needed - 1, 0x80, 0xBF)) bs)
      else 0xFFFD # utf8_decode None (b # bs))"

definition TextDecoder_decode :: "byte list \<Rightarrow> jstring" where
  "TextDecoder_decode chunk =
     (case utf8_decode None chunk of
        [] \<Rightarrow> []
      | c # cs \<Rightarrow> if c = 0xFEFF then cs else c # cs)"

text \<open>\<open>s.trim()\<close>: white space and line terminators of ECMAScript, cut from both ends.\<close>

definition is_js_space :: "nat \<Rightarrow> bool" where
  "is_js_space c =
     (c \<in> {0x09, 0x0A, 0x0B, 0x0C, 0x0D, 0x20, 0xA0, 0x1680, 0x2028, 0x2029, 0x202F, 0x205F,
            0x3000, 0xFEFF}
      \<or> (0x2000 \<le> c \<and> c \<le> 0x200A))"

definition js_trim :: "jstring \<Rightarrow> jstring" where
  "js_trim s = rev (dropWhile is_js_space (rev (dropWhile is_js_space s)))"

text \<open>
  \<open>parseInt(s, 10)\<close>: leading white space, an optional sign, then the longest run of
  decimal digits; \<open>NaN\<close> when there is no digit. The result is a Number: the integer
  the digits spell, rounded to the nearest double (a tie goes to the even significand).
  That is the integer itself below \<open>2^53\<close>, and \<open>Infinity\<close> when the rounded value
  reaches \<open>2^1024\<close>. \<open>Num 0\<close> stands for both zeros.
\<close>

datatype js_number = NaN | Num int | PosInfinity | NegInfinity

definition is_digit :: "nat \<Rightarrow> bool" where
  "is_digit c = (48 \<le> c \<and> c \<le> 57)"

fun bit_length :: "nat \<Rightarrow> nat" where
  "bit_length n = (if n = 0 then 0 else Suc (bit_length (n div 2)))"

declare bit_length.simps [simp del]

text \<open>The double nearest to a natural number, \<open>None\<close> for \<open>Infinity\<close>.\<close>

definition to_double :: "nat \<Rightarrow> nat option" where
  "to_double n =
     (if n < 2 ^ 53 then Some n
      else (let e = bit_length n - 53;
                q = n div 2 ^ e;
                r = n mod 2 ^ e;
                m = (if 2 ^ e < 2 * r \<or> (2 * r = 2 ^ e \<and> odd q) then q + 1 else q) * 2 ^ e
            in if 2 ^ 1024 \<le> m then None else Some m))"

definition parseInt10 :: "jstring \<Rightarrow> js_number" where
  "parseInt10 s =
     (let t = dropWhile is_js_space s;
          negative = (case t of [] \<Rightarrow> False | c # cs \<Rightarrow> c = 45);
          r = (case t of [] \<Rightarrow> [] | c # cs \<Rightarrow> if c = 45 \<or> c = 43 then cs else t);
          ds = takeWhile is_digit r
      in if ds = [] then NaN
         else (case to_double (foldl (\<lambda>a d. 10 * a + (d - 48)) 0 ds) of
                 None \<Rightarrow> if negative then NegInfinity else PosInfinity
               | Some m \<Rightarrow> Num ((if negative then - 1 else 1) * int m)))"

subsection \<open>Events and the parser's state\<close>

text \<open>
  The payload of an event: what \<open>JSON.parse\<close> returned, the marker \<open>{type: 'done'}\<close> of
  the terminator \<open>[DONE]\<close>, or \<open>{raw, error: 'JSON parse failed'}\<close>. \<open>JSON.parse\<close> is the
  parameter \<open>json_parse\<close>, \<open>None\<close> where it throws. A field of the draft that was never
  assigned is \<open>None\<close>, so \<open>Object.keys(currentEvent).length > 0\<close> says that some field
  is not \<open>None\<close>.
\<close>

datatype 'p sse_data = ParsedData 'p | DoneData | RawData jstring

record 'p ParsedSSEEvent =
  pe_event :: "jstring option"
  pe_data :: "'p sse_data option"
  pe_id :: "jstring option"
  pe_retry :: "js_number option"

definition empty_event :: "'p ParsedSSEEvent" where
  "empty_event = \<lparr>pe_event = None, pe_data = None, pe_id = None, pe_retry = None\<rparr>"

definition has_keys :: "'p ParsedSSEEvent \<Rightarrow> bool" where
  "has_keys e = (\<not> (pe_event e = None \<and> pe_data e = None \<and> pe_id e = None \<and> pe_retry e = None))"

record 'p parser_state =
  buffer :: jstring
  currentEvent :: "'p ParsedSSEEvent"

definition parser_init :: "'p parser_state" where
  "parser_init = \<lparr>buffer = [], currentEvent = empty_event\<rparr>"

text \<open>
  \<open>processLine(line, events?)\<close> returns the event it completed (or \<open>null\<close>), the
  \<open>events\<close> array when one was passed, and the draft.
\<close>

definition processLine ::
  "(jstring \<Rightarrow> 'p option) \<Rightarrow> jstring \<Rightarrow> 'p ParsedSSEEvent list option \<Rightarrow> 'p ParsedSSEEvent \<Rightarrow>
   'p ParsedSSEEvent option \<times> 'p ParsedSSEEvent list option \<times> 'p ParsedSSEEvent" where
  "processLine json_parse line events cur =
     (if js_trim line = [] then
        (if has_keys cur then
           (case events of
              Some evs \<Rightarrow> (None, Some (evs @ [cur]), empty_event)
            | None \<Rightarrow> (Some cur, None, empty_event))
         else (None, events, cur))
      else if startsWith line (ascii ''event:'') then
        (None, events, cur\<lparr>pe_event := Some (js_trim (drop 6 line))\<rparr>)
      else if startsWith line (ascii ''data:'') then
        (let d = js_trim (drop 5 line) in
         if d = ascii ''[DONE]'' then (None, events, cur\<lparr>pe_data := Some DoneData\<rparr>)
         else (case json_parse d of
                 Some v \<Rightarrow> (None, events, cur\<lparr>pe_data := Some (ParsedData v)\<rparr>)
               | None \<Rightarrow> (None, events, cur\<lparr>pe_data := Some (RawData d)\<rparr>)))
      else if startsWith line (ascii ''id:'') then
        (None, events, cur\<lparr>pe_id := Some (js_trim (drop 3 line))\<rparr>)
      else if startsWith line (ascii ''retry:'') then
        (None, events, cur\<lparr>pe_retry := Some (parseInt10 (js_trim (drop 6 line)))\<rparr>)
      else (None, events, cur))"

text \<open>
  The loop of \<open>transform\<close> over the complete lines: each line goes through
  \<open>processLine\<close>, and an event it returns is enqueued.
\<close>

fun process_lines ::
  "(jstring \<Rightarrow> 'p option) \<Rightarrow> jstring list \<Rightarrow> 'p ParsedSSEEvent \<Rightarrow>
   'p ParsedSSEEvent \<times> 'p ParsedSSEEvent list" where
  "process_lines json_parse [] cur = (cur, [])"
| "process_lines json_parse (line # rest) cur =
     (case processLine json_parse line None cur of
        (ret, _, cur') \<Rightarrow>
          (case process_lines json_parse rest cur' of
             (cur'', out) \<Rightarrow> (cur'', (case ret of None \<Rightarrow> [] | Some e \<Rightarrow> [e]) @ out)))"

text \<open>
  \<open>transform(chunk)\<close>: decode, append to the buffer, split at line feeds, keep the last
  piece as the new buffer, and process the others. It returns the state and the events
  it enqueued.
\<close>

definition transform ::
  "(jstring \<Rightarrow> 'p option) \<Rightarrow> byte list \<Rightarrow> 'p parser_state \<Rightarrow>
   'p parser_state \<times> 'p ParsedSSEEvent list" where
  "transform json_parse chunk st =
     (let lines = split_on 10 (buffer st @ TextDecoder_decode chunk)
      in (case process_lines json_parse (butlast lines) (currentEvent st) of
            (cur', out) \<Rightarrow> (\<lparr>buffer = last lines, currentEvent = cur'\<rparr>, out)))"

text \<open>
  \<open>flush\<close>: a buffer that is not blank is trimmed and processed as a line, with an
  \<open>events\<close> array whose content is enqueued; then a draft with a field set is enqueued.
\<close>

definition flush ::
  "(jstring \<Rightarrow> 'p option) \<Rightarrow> 'p parser_state \<Rightarrow> 'p ParsedSSEEvent list" where
  "flush json_parse st =
     (let (events, cur) =
            (if js_trim (buffer st) \<noteq> [] then
               (case processLine json_parse (js_trim (buffer st)) (Some []) (currentEvent st) of
                  (_, evs, cur') \<Rightarrow> ((case evs of None \<Rightarrow> [] | Some es \<Rightarrow> es), cur'))
             else ([], currentEvent st))
      in events @ (if has_keys cur then [cur] else []))"

text \<open>The whole stream: every chunk through \<open>transform\<close>, then \<open>flush\<close>.\<close>

fun parse_chunks ::
  "(jstring \<Rightarrow> 'p option) \<Rightarrow> byte list list \<Rightarrow> 'p parser_state \<Rightarrow> 'p ParsedSSEEvent list" where
  "parse_chunks json_parse [] st = flush json_parse st"
| "parse_chunks json_parse (chunk # chunks) st =
     (case transform json_parse chunk st of
        (st', out) \<Rightarrow> out @ parse_chunks json_parse chunks st')"

definition SSEParserTransform ::
  "(jstring \<Rightarrow> 'p option) \<Rightarrow> byte list list \<Rightarrow> 'p ParsedSSEEvent list" where
  "SSEParserTransform json_parse chunks = parse_chunks json_parse chunks parser_init"

text \<open>A chunk of ASCII bytes: every byte is at most \<open>0x7F\<close>.\<close>

definition ascii_bytes :: "byte list \<Rightarrow> bool" where
  "ascii_bytes chunk = list_all (\<lambda>b. unat b \<le> 0x7F) chunk"


section \<open>The stream rewriter (\<open>rewriteStream.ts\<close>)\<close>

text \<open>
  The output side of a \<open>ReadableStream\<close>, as its controller shows it at one moment:
  readable with a desired size (the high-water mark minus what is queued, zero or less
  under backpressure), closed (the consumer cancelled it), or errored.
  \<open>controller.desiredSize\<close> is the desired size, \<open>0\<close> when closed and \<open>null\<close> when
  errored; \<open>controller.enqueue\<close> and \<open>controller.close\<close> throw a TypeError unless the
  stream is readable, and \<open>controller.error\<close> does nothing unless it is readable.
\<close>

datatype out_state = Readable int | Closed | Errored

definition desiredSize :: "out_state \<Rightarrow> int option" where
  "desiredSize os = (case os of Readable d \<Rightarrow> Some d | Closed \<Rightarrow> Some 0 | Errored \<Rightarrow> None)"

definition can_enqueue :: "out_state \<Rightarrow> bool" where
  "can_enqueue os = (case os of Readable d \<Rightarrow> True | Closed \<Rightarrow> False | Errored \<Rightarrow> False)"

text \<open>
  How the output ends: closed by \<open>controller.close()\<close>, errored by
  \<open>controller.error(e)\<close>, or left as the consumer had put it (the call was refused or
  did nothing).
\<close>

datatype stream_end = EndClosed | EndErrored js_error | EndLeft out_state

definition controller_error :: "js_error \<Rightarrow> out_state \<Rightarrow> stream_end" where
  "controller_error e os = (if can_enqueue os then EndErrored e else EndLeft os)"

record 'b rewrite_result =
  rs_reads :: nat
  rs_output :: "'b list"
  rs_end :: stream_end
  rs_released :: bool

text \<open>
  The source is the list of the values its reads deliver, each with the state of the
  output when the step function has finished with it, and how it ends: \<open>None\<close> for
  \<open>done\<close>, \<open>Some e\<close> for a read that rejects with \<open>e\<close>. The step function takes its own
  state and a value, and gives its new state, what it enqueued itself through the
  controller, and either the exception it threw or the value it returned (\<open>None\<close> for
  \<open>undefined\<close>). \<open>rs_reads\<close> counts the calls of \<open>reader.read()\<close>.
\<close>

fun rewrite_loop ::
  "('s \<Rightarrow> 'a \<Rightarrow> 's \<times> 'b list \<times> (js_error + 'b option)) \<Rightarrow> 's \<Rightarrow>
   ('a \<times> out_state) list \<Rightarrow> js_error option \<times> out_state \<Rightarrow> nat \<Rightarrow> 'b list \<Rightarrow>
   'b rewrite_result" where
  "rewrite_loop processor st [] fin reads out =
     (case fst fin of
        None \<Rightarrow>
          \<lparr>rs_reads = reads + 1, rs_output = out,
           rs_end = (if can_enqueue (snd fin) then EndClosed
                     else controller_error TypeError (snd fin)),
           rs_released = True\<rparr>
      | Some e \<Rightarrow>
          \<lparr>rs_reads = reads + 1, rs_output = out, rs_end = controller_error e (snd fin),
           rs_released = True\<rparr>)"
| "rewrite_loop processor st ((v, os) # rest) fin reads out =
     (case processor st v of
        (st', direct, Inl e) \<Rightarrow>
          \<lparr>rs_reads = reads + 1, rs_output = out @ direct, rs_end = controller_error e os,
           rs_released = True\<rparr>
      | (st', direct, Inr None) \<Rightarrow>
          rewrite_loop processor st' rest fin (reads + 1) (out @ direct)
      | (st', direct, Inr (Some processed)) \<Rightarrow>
          if can_enqueue os
          then rewrite_loop processor st' rest fin (reads + 1) (out @ direct @ [processed])
          else \<lparr>rs_reads = reads + 1, rs_output = out @ direct,
                rs_end = controller_error TypeError os, rs_released = True\<rparr>)"

definition rewriteStream ::
  "('s \<Rightarrow> 'a \<Rightarrow> 's \<times> 'b list \<times> (js_error + 'b option)) \<Rightarrow> 's \<Rightarrow>
   ('a \<times> out_state) list \<Rightarrow> js_error option \<times> out_state \<Rightarrow> 'b rewrite_result" where
  "rewriteStream processor st items fin = rewrite_loop processor st items fin 0 []"


text \<open>
  The same output state with the backpressure taken away: a readable output gets the
  desired size 1, a closed or errored one is unchanged.
\<close>

definition without_backpressure :: "out_state \<Rightarrow> out_state" where
  "without_backpressure os =
     (case os of Readable d \<Rightarrow> Readable 1 | Closed \<Rightarrow> Closed | Errored \<Rightarrow> Errored)"

subsection \<open>The reads, described by the first exception\<close>

text \<open>
  The step function's state before the value number \<open>k\<close> (from 0): its state threaded
  through the calls on the values before that one.
\<close>

definition state_before ::
  "('s \<Rightarrow> 'a \<Rightarrow> 's \<times> 'b list \<times> (js_error + 'b option)) \<Rightarrow> 's \<Rightarrow>
   ('a \<times> out_state) list \<Rightarrow> nat \<Rightarrow> 's" where
  "state_before processor st items k =
     foldl (\<lambda>s item. fst (processor s (fst item))) st (take k items)"

text \<open>
  The exception raised at the value number \<open>k\<close>, if any: the step function throws on
  it, or it returns a value while the output is not readable any more (the consumer
  cancelled it, or it is errored), so that \<open>controller.enqueue\<close> throws a TypeError.
\<close>

definition exception_at ::
  "('s \<Rightarrow> 'a \<Rightarrow> 's \<times> 'b list \<times> (js_error + 'b option)) \<Rightarrow> 's \<Rightarrow>
   ('a \<times> out_state) list \<Rightarrow> nat \<Rightarrow> js_error option" where
  "exception_at processor st items k =
     (case processor (state_before processor st items k) (fst (items ! k)) of
        (st', direct, Inl e) \<Rightarrow> Some e
      | (st', direct, Inr None) \<Rightarrow> None
      | (st', direct, Inr (Some processed)) \<Rightarrow>
          if can_enqueue (snd (items ! k)) then None else Some TypeError)"

text \<open>What reaches the output at the value number \<open>k\<close>.\<close>

definition enqueued_at ::
  "('s \<Rightarrow> 'a \<Rightarrow> 's \<times> 'b list \<times> (js_error + 'b option)) \<Rightarrow> 's \<Rightarrow>
   ('a \<times> out_state) list \<Rightarrow> nat \<Rightarrow> 'b list" where
  "enqueued_at processor st items k =
     (case processor (state_before processor st items k) (fst (items ! k)) of
        (st', direct, Inl e) \<Rightarrow> direct
      | (st', direct, Inr None) \<Rightarrow> direct
      | (st', direct, Inr (Some processed)) \<Rightarrow>
          if can_enqueue (snd (items ! k)) then direct @ [processed] else direct)"

text \<open>
  The number of the first value at which an exception is raised, and the number of
  values the source has delivered by then (all of them when there is no exception).
\<close>

definition first_exception ::
  "('s \<Rightarrow> 'a \<Rightarrow> 's \<times> 'b list \<times> (js_error + 'b option)) \<Rightarrow> 's \<Rightarrow>
   ('a \<times> out_state) list \<Rightarrow> nat option" where
  "first_exception processor st items =
     find (\<lambda>k. exception_at processor st items k \<noteq> None) [0..<length items]"

definition values_delivered ::
  "('s \<Rightarrow> 'a \<Rightarrow> 's \<times> 'b list \<times> (js_error + 'b option)) \<Rightarrow> 's \<Rightarrow>
   ('a \<times> out_state) list \<Rightarrow> nat" where
  "values_delivered processor st items =
     (case first_exception processor st items of None \<Rightarrow> length items | Some k \<Rightarrow> k + 1)"



section \<open>The tool-call interceptor (\<open>processCheck.ts\<close>, the helpers of the \<open>onSend\<close> hook)\<close>

subsection \<open>Events, agents and the state of one stream\<close>

record ContentBlock =
  cb_type :: string
  cb_name :: "string option"
  cb_id :: "string option"

record Delta =
  delta_type :: string
  partial_json :: "string option"

text \<open>
  The payload of an event as the interceptor reads it. \<open>sd_rest\<close> stands for every
  other field (text, usage, stop reason).
\<close>

record SSEEventData =
  sd_type :: "string option"
  sd_index :: "int option"
  sd_content_block :: "ContentBlock option"
  sd_delta :: "Delta option"
  sd_rest :: json

text \<open>An event; \<open>ev_data = None\<close> is an event whose \<open>data\<close> is \<open>undefined\<close> or \<open>null\<close>.\<close>

record SSEEvent =
  ev_event :: "string option"
  ev_data :: "SSEEventData option"

record ToolUseMessage =
  tu_id :: "string option"
  tu_name :: string
  tu_input :: json

record ToolResultMessage =
  tr_tool_use_id :: "string option"
  tr_content :: "string option"

text \<open>
  \<open>routerReq.body.messages\<close>. The two messages \<open>fetchToolResponse\<close> pushes hold the
  arrays \<open>state.assistantMessages\<close> and \<open>state.toolMessages\<close> themselves, not copies:
  an entry of the history is an original message or a reference to one of the two
  arrays, and the body that \<open>JSON.stringify\<close> sends reads the arrays as they are then.
\<close>

datatype history_entry = Original MessageParam | AssistantToolUses | UserToolResults

datatype sent_message =
    SentOriginal MessageParam
  | SentAssistant "ToolUseMessage list"
  | SentUser "ToolResultMessage list"

text \<open>
  A tool's handler gets the parsed arguments and the request; it returns a string or
  throws. An agent is its name and its tools by name; \<open>agentsManager.getAgent\<close> is the
  parameter \<open>getAgent\<close>.
\<close>

record ITool =
  handler :: "json \<Rightarrow> sent_message list \<Rightarrow> js_error + string"

record IAgent =
  agent_name :: string
  agent_tools :: "string \<Rightarrow> ITool option"

record AgentToolState =
  currentAgent :: "IAgent option"
  currentToolIndex :: "int option"
  currentToolName :: string
  currentToolArgs :: string
  currentToolId :: "string option"
  toolMessages :: "ToolResultMessage list"
  assistantMessages :: "ToolUseMessage list"

definition createAgentToolState :: AgentToolState where
  "createAgentToolState =
     \<lparr>currentAgent = None, currentToolIndex = Some (- 1), currentToolName = [],
      currentToolArgs = [], currentToolId = Some [], toolMessages = [],
      assistantMessages = []\<rparr>"

definition resetToolState :: "AgentToolState \<Rightarrow> AgentToolState" where
  "resetToolState state =
     state\<lparr>currentAgent := None, currentToolIndex := Some (- 1), currentToolName := [],
           currentToolArgs := [], currentToolId := Some []\<rparr>"

definition snapshot :: "AgentToolState \<Rightarrow> history_entry list \<Rightarrow> sent_message list" where
  "snapshot state hist =
     map (\<lambda>entry. case entry of
                     Original m \<Rightarrow> SentOriginal m
                   | AssistantToolUses \<Rightarrow> SentAssistant (assistantMessages state)
                   | UserToolResults \<Rightarrow> SentUser (toolMessages state)) hist"

text \<open>What the helpers write with \<open>console.error\<close>.\<close>

datatype console_line =
    ToolExecutionError string js_error
  | FetchFailedStatus nat
  | FetchTimedOut
  | FetchError js_error
  | UnexpectedError js_error

text \<open>
  The answer of \<open>fetch\<close> to a continuation request: it rejects, or it resolves to a
  response with its \<open>ok\<close> flag, its status, and a body. The body is given after
  \<open>SSEParserTransform\<close>: the events its reads deliver, each with the state of the outer
  output when it is read, and how the reading ends (\<open>None\<close> for \<open>done\<close>, \<open>Some e\<close> for a
  read that rejects).
\<close>

datatype fetch_result =
    FetchRejects js_error
  | FetchResponse bool nat "(SSEEvent \<times> out_state) list" "js_error option"

record interceptor_env =
  getAgent :: "string \<Rightarrow> IAgent option"
  JSON5_parse :: "string \<Rightarrow> json option"
  fetch_messages :: "sent_message list \<Rightarrow> fetch_result"

text \<open>
  Everything one stream's processor can change: the tool state it closes over, the
  request's message history, the continuation requests issued so far (the message
  history each body carried), the console, and whether \<open>abortController.abort()\<close> was
  called.
\<close>

record proc_state =
  tool_state :: AgentToolState
  history :: "history_entry list"
  requests :: "sent_message list list"
  console :: "console_line list"
  aborted :: bool

subsection \<open>The helpers\<close>

definition index_bound :: "AgentToolState \<Rightarrow> bool" where
  "index_bound state = (case currentToolIndex state of None \<Rightarrow> False | Some i \<Rightarrow> i > - 1)"

definition detectToolCallStart ::
  "(string \<Rightarrow> IAgent option) \<Rightarrow> SSEEvent \<Rightarrow> AgentToolState \<Rightarrow> string list \<Rightarrow>
   bool \<times> AgentToolState" where
  "detectToolCallStart get_agent data state agents =
     (if ev_event data = Some ''content_block_start'' then
        (case ev_data data of
           None \<Rightarrow> (False, state)
         | Some d \<Rightarrow>
             (case sd_content_block d of
                None \<Rightarrow> (False, state)
              | Some cb \<Rightarrow>
                  (case cb_name cb of
                     None \<Rightarrow> (False, state)
                   | Some nm \<Rightarrow>
                       if nm = [] then (False, state)
                       else
                         (case find (\<lambda>name. case get_agent name of
                                               None \<Rightarrow> False
                                             | Some a \<Rightarrow> agent_tools a nm \<noteq> None) agents of
                            None \<Rightarrow> (False, state)
                          | Some agent \<Rightarrow>
                              if agent = [] then (False, state)
                              else (True, state\<lparr>currentAgent := get_agent agent,
                                                currentToolIndex := sd_index d,
                                                currentToolName := nm,
                                                currentToolId := cb_id cb\<rparr>)))))
      else (False, state))"

text \<open>
  \<open>collectToolArguments\<close> and \<open>executeAgentTool\<close> read \<open>data.data.index\<close> once a tool is
  bound: on an event without \<open>data\<close> that read throws a TypeError.
\<close>

definition collectToolArguments ::
  "SSEEvent \<Rightarrow> AgentToolState \<Rightarrow> js_error + (bool \<times> AgentToolState)" where
  "collectToolArguments data state =
     (if index_bound state then
        (case ev_data data of
           None \<Rightarrow> Inl TypeError
         | Some d \<Rightarrow>
             if sd_index d = currentToolIndex state
                \<and> (case sd_delta d of
                      None \<Rightarrow> False
                    | Some dl \<Rightarrow> delta_type dl = ''input_json_delta'')
             then Inr (True,
                       state\<lparr>currentToolArgs :=
                               currentToolArgs state @
                               (case sd_delta d of
                                  None \<Rightarrow> []
                                | Some dl \<Rightarrow> (case partial_json dl of None \<Rightarrow> [] | Some s \<Rightarrow> s))\<rparr>)
             else Inr (False, state))
      else Inr (False, state))"

text \<open>
  The body of the \<open>try\<close> in \<open>executeAgentTool\<close>, with its \<open>catch\<close>: the state after it
  and the line logged when \<open>JSON5.parse\<close> or the handler threw. The tool-use entry is
  pushed before the handler is called, and the handler sees the request as it is then.
\<close>

definition executeTool_try ::
  "(string \<Rightarrow> json option) \<Rightarrow> history_entry list \<Rightarrow> AgentToolState \<Rightarrow>
   AgentToolState \<times> console_line list" where
  "executeTool_try json5_parse hist state =
     (case json5_parse (currentToolArgs state) of
        None \<Rightarrow>
          (state, [ToolExecutionError (currentToolName state) (JsError ''SyntaxError'' None)])
      | Some args \<Rightarrow>
          (let state1 = state\<lparr>assistantMessages :=
                                assistantMessages state @
                                [\<lparr>tu_id = currentToolId state, tu_name = currentToolName state,
                                  tu_input = args\<rparr>]\<rparr>;
               toolResult =
                 (case currentAgent state1 of
                    None \<Rightarrow> Inr None
                  | Some a \<Rightarrow>
                      (case agent_tools a (currentToolName state1) of
                         None \<Rightarrow> Inr None
                       | Some t \<Rightarrow>
                           (case handler t args (snapshot state1 hist) of
                              Inl e \<Rightarrow> Inl e
                            | Inr s \<Rightarrow> Inr (Some s))))
           in (case toolResult of
                 Inl e \<Rightarrow> (state1, [ToolExecutionError (currentToolName state1) e])
               | Inr r \<Rightarrow>
                   (state1\<lparr>toolMessages :=
                             toolMessages state1 @
                             [\<lparr>tr_tool_use_id = currentToolId state1, tr_content = r\<rparr>]\<rparr>,
                    []))))"

definition executeAgentTool ::
  "(string \<Rightarrow> json option) \<Rightarrow> SSEEvent \<Rightarrow> AgentToolState \<Rightarrow> history_entry list \<Rightarrow>
   js_error + (bool \<times> AgentToolState \<times> console_line list)" where
  "executeAgentTool json5_parse data state hist =
     (if index_bound state then
        (case ev_data data of
           None \<Rightarrow> Inl TypeError
         | Some d \<Rightarrow>
             if sd_index d = currentToolIndex state \<and> sd_type d = Some ''content_block_stop''
             then (case executeTool_try json5_parse hist state of
                     (state', logged) \<Rightarrow> Inr (True, resetToolState state', logged))
             else Inr (False, state, []))
      else Inr (False, state, []))"

text \<open>
  \<open>pipeResponseToController\<close>: the loop over the continuation's events. It gives the
  events it enqueued on the outer controller, whether it called
  \<open>abortController.abort()\<close>, and the read error it threw again, if any.
\<close>

definition is_envelope :: "SSEEvent \<Rightarrow> bool" where
  "is_envelope v =
     (case ev_event v of
        None \<Rightarrow> False
      | Some name \<Rightarrow> name \<noteq> [] \<and> name \<in> set [''message_start'', ''message_stop''])"

definition desiredSize_falsy :: "out_state \<Rightarrow> bool" where
  "desiredSize_falsy os = (case desiredSize os of None \<Rightarrow> True | Some d \<Rightarrow> d = 0)"

definition is_cancellation :: "js_error \<Rightarrow> bool" where
  "is_cancellation e =
     (err_name e = ''AbortError'' \<or> err_code e = Some ''ERR_STREAM_PREMATURE_CLOSE'')"

fun pipeResponseToController ::
  "(SSEEvent \<times> out_state) list \<Rightarrow> js_error option \<Rightarrow> SSEEvent list \<times> bool \<times> js_error option"
  where
  "pipeResponseToController [] None = ([], False, None)"
| "pipeResponseToController [] (Some readError) =
     (if is_cancellation readError then ([], True, None) else ([], False, Some readError))"
| "pipeResponseToController ((v, os) # rest) fin =
     (if is_envelope v then pipeResponseToController rest fin
      else if desiredSize_falsy os then ([], False, None)
      else (case pipeResponseToController rest fin of
              (enqueued, abort, thrown) \<Rightarrow> (v # enqueued, abort, thrown)))"

text \<open>
  \<open>fetchToolResponse\<close>: push the two messages, send the body, and pipe the response.
  A rejected \<open>fetch\<close> and a read error thrown again by the pipe are caught and logged.
\<close>

definition fetch_catch :: "js_error \<Rightarrow> console_line" where
  "fetch_catch e = (if err_name e = ''AbortError'' then FetchTimedOut else FetchError e)"

definition fetchToolResponse ::
  "interceptor_env \<Rightarrow> proc_state \<Rightarrow> proc_state \<times> SSEEvent list" where
  "fetchToolResponse env st =
     (let hist = history st @ [AssistantToolUses, UserToolResults];
          sent = snapshot (tool_state st) hist;
          st1 = st\<lparr>history := hist, requests := requests st @ [sent]\<rparr>
      in (case fetch_messages env sent of
            FetchRejects e \<Rightarrow> (st1\<lparr>console := console st1 @ [fetch_catch e]\<rparr>, [])
          | FetchResponse ok status items fin \<Rightarrow>
              if \<not> ok then (st1\<lparr>console := console st1 @ [FetchFailedStatus status]\<rparr>, [])
              else (case pipeResponseToController items fin of
                      (enqueued, abort, thrown) \<Rightarrow>
                        (st1\<lparr>aborted := (aborted st1 \<or> abort),
                             console := console st1 @
                               (case thrown of None \<Rightarrow> [] | Some e \<Rightarrow> [fetch_catch e])\<rparr>,
                         enqueued))))"

text \<open>
  The callback of \<open>createAgentStreamProcessor\<close>: the new state, what it enqueued on the
  controller itself, and the exception it threw or the event it returned (\<open>None\<close> for
  \<open>undefined\<close>). An exception of the steps is logged; a premature close aborts and
  returns \<open>undefined\<close>, any other is thrown again.
\<close>

definition processor_catch ::
  "proc_state \<Rightarrow> js_error \<Rightarrow> proc_state \<times> SSEEvent list \<times> (js_error + SSEEvent option)" where
  "processor_catch st e =
     (let st1 = st\<lparr>console := console st @ [UnexpectedError e]\<rparr>
      in if err_code e = Some ''ERR_STREAM_PREMATURE_CLOSE''
         then (st1\<lparr>aborted := True\<rparr>, [], Inr None)
         else (st1, [], Inl e))"

definition agentStreamProcessor ::
  "interceptor_env \<Rightarrow> string list \<Rightarrow> proc_state \<Rightarrow> SSEEvent \<Rightarrow>
   proc_state \<times> SSEEvent list \<times> (js_error + SSEEvent option)" where
  "agentStreamProcessor env agents st data =
     (case detectToolCallStart (getAgent env) data (tool_state st) agents of
        (True, state') \<Rightarrow> (st\<lparr>tool_state := state'\<rparr>, [], Inr None)
      | (False, _) \<Rightarrow>
     (case collectToolArguments data (tool_state st) of
        Inl e \<Rightarrow> processor_catch st e
      | Inr (True, state') \<Rightarrow> (st\<lparr>tool_state := state'\<rparr>, [], Inr None)
      | Inr (False, _) \<Rightarrow>
     (case executeAgentTool (JSON5_parse env) data (tool_state st) (history st) of
        Inl e \<Rightarrow> processor_catch st e
      | Inr (True, state', logged) \<Rightarrow>
          (st\<lparr>tool_state := state', console := console st @ logged\<rparr>, [], Inr None)
      | Inr (False, _, _) \<Rightarrow>
          if ev_event data = Some ''message_delta'' \<and> toolMessages (tool_state st) \<noteq> [] then
            (case fetchToolResponse env st of
               (st', enqueued) \<Rightarrow> (st', enqueued, Inr None))
          else (st, [], Inr (Some data)))))"

definition proc_init :: "MessageParam list \<Rightarrow> proc_state" where
  "proc_init msgs =
     \<lparr>tool_state = createAgentToolState, history = map Original msgs, requests = [],
      console = [], aborted = False\<rparr>"

text \<open>
  \<open>processAgentStream\<close>, before the serializer: the events of the outer stream go
  through \<open>rewriteStream\<close> with the processor of a fresh state.
\<close>

definition processAgentStream ::
  "interceptor_env \<Rightarrow> string list \<Rightarrow> MessageParam list \<Rightarrow>
   (SSEEvent \<times> out_state) list \<Rightarrow> js_error option \<times> out_state \<Rightarrow> SSEEvent rewrite_result" where
  "processAgentStream env agents msgs items fin =
     rewriteStream (agentStreamProcessor env agents) (proc_init msgs) items fin"

text \<open>The states the processor goes through on a list of events, until it throws.\<close>

fun run_processor ::
  "interceptor_env \<Rightarrow> string list \<Rightarrow> proc_state \<Rightarrow> SSEEvent list \<Rightarrow>
   proc_state \<times> SSEEvent list \<times> js_error option" where
  "run_processor env agents st [] = (st, [], None)"
| "run_processor env agents st (data # rest) =
     (case agentStreamProcessor env agents st data of
        (st', enqueued, Inl e) \<Rightarrow> (st', enqueued, Some e)
      | (st', enqueued, Inr returned) \<Rightarrow>
          (case run_processor env agents st' rest of
             (st'', out, thrown) \<Rightarrow>
               (st'', enqueued @ (case returned of None \<Rightarrow> [] | Some v \<Rightarrow> [v]) @ out, thrown)))"

text \<open>
  A turn-complete event of the protocol: it is named \<open>message_delta\<close> and its payload
  carries no content-block index.
\<close>

definition is_turn_complete :: "SSEEvent \<Rightarrow> bool" where
  "is_turn_complete data =
     (ev_event data = Some ''message_delta''
      \<and> (case ev_data data of None \<Rightarrow> False | Some d \<Rightarrow> sd_index d = None))"

text \<open>
  The recorded lists of \<open>s'\<close> extend those of \<open>s\<close>: nothing recorded was removed.
\<close>

definition recorded_extends :: "AgentToolState \<Rightarrow> AgentToolState \<Rightarrow> bool" where
  "recorded_extends s s' =
     (prefix (toolMessages s) (toolMessages s')
      \<and> prefix (assistantMessages s) (assistantMessages s'))"

section \<open>Example requests and configurations for the router\<close>

text \<open>A file system with no project for any session, and a request with no session.\<close>

definition no_overrides :: FsEnv where
  "no_overrides = \<lparr>searchProjectBySession = (\<lambda>sid. None), readConfigFile = (\<lambda>path. None)\<rparr>"

definition plain_request :: "string \<Rightarrow> RouterRequest" where
  "plain_request m =
     \<lparr>body = \<lparr>model = m, messages = Some [], system = None, tools = None, thinking = None\<rparr>,
      sessionId = None\<rparr>"

definition route_config ::
  "string \<Rightarrow> string option \<Rightarrow> string option \<Rightarrow> int option \<Rightarrow> RouterConfig" where
  "route_config d bg lc thr =
     \<lparr>rc_default = d, rc_background = bg, rc_think = None, rc_longContext = lc,
      rc_longContextThreshold = thr, rc_webSearch = None, rc_image = None\<rparr>"

text \<open>
  A file system in which session \<open>s1\<close> belongs to project \<open>proj\<close>, whose
  session-scoped configuration file \<open>s1.json\<close> has the routing section \<open>r\<close>; and a
  request of that session.
\<close>

definition session_override :: "RouterConfig \<Rightarrow> FsEnv" where
  "session_override r =
     \<lparr>searchProjectBySession = (\<lambda>sid. if sid = ''s1'' then Some ''proj'' else None),
      readConfigFile =
        (\<lambda>path. if path = [HOME_DIR, ''proj'', ''s1.json'']
                then Some \<lparr>fc_Router = Some r\<rparr> else None)\<rparr>"

definition session_request :: "string \<Rightarrow> RouterRequest" where
  "session_request m =
     \<lparr>body = \<lparr>model = m, messages = Some [], system = None, tools = None, thinking = None\<rparr>,
      sessionId = Some ''s1''\<rparr>"

text \<open>
  The long-context condition as the specification words it: the threshold is the
  configured one, and 60000 when none is configured.
\<close>

definition spec_longContextThreshold :: "RouterConfig \<Rightarrow> int" where
  "spec_longContextThreshold R =
     (case rc_longContextThreshold R of None \<Rightarrow> 60000 | Some n \<Rightarrow> n)"

definition spec_longContextTriggers :: "RouterConfig \<Rightarrow> int \<Rightarrow> Usage option \<Rightarrow> bool" where
  "spec_longContextTriggers R tokenCount lastUsage =
     (truthy_str (rc_longContext R) \<and>
      (tokenCount > spec_longContextThreshold R \<or>
       (\<exists>u. lastUsage = Some u \<and> input_tokens u > spec_longContextThreshold R
            \<and> tokenCount > 20000)))"


section \<open>Example streams, agents and responses\<close>

text \<open>
  A stand-in for \<open>JSON.parse\<close> that accepts the empty object only, and the bytes of
  \<open>event: caf\<close>, the two bytes \<open>C3 A9\<close> of U+00E9, a line feed, \<open>data: [DONE]\<close> and two
  line feeds.
\<close>

definition example_json_parse :: "jstring \<Rightarrow> json option" where
  "example_json_parse s = (if s = ascii ''{}'' then Some (JObj []) else None)"

definition cafe_stream :: "byte list" where
  "cafe_stream =
     [0x65, 0x76, 0x65, 0x6E, 0x74, 0x3A, 0x20, 0x63, 0x61, 0x66, 0xC3, 0xA9, 0x0A,
      0x64, 0x61, 0x74, 0x61, 0x3A, 0x20, 0x5B, 0x44, 0x4F, 0x4E, 0x45, 0x5D, 0x0A, 0x0A]"

text \<open>
  A stream in two chunks. The first holds the lines \<open>id: 7\<close> and \<open>data: {broken\<close>, a
  blank line and the start \<open>event: pi\<close> of the next line; the second holds \<open>ng\<close>, a
  line feed, \<open>data: [DONE]\<close> and two line feeds.
\<close>

definition broken_chunk :: "byte list" where
  "broken_chunk =
     [0x69, 0x64, 0x3A, 0x20, 0x37, 0x0A,
      0x64, 0x61, 0x74, 0x61, 0x3A, 0x20, 0x7B, 0x62, 0x72, 0x6F, 0x6B, 0x65, 0x6E, 0x0A,
      0x0A, 0x65, 0x76, 0x65, 0x6E, 0x74, 0x3A, 0x20, 0x70, 0x69]"

definition ping_chunk :: "byte list" where
  "ping_chunk =
     [0x6E, 0x67, 0x0A, 0x64, 0x61, 0x74, 0x61, 0x3A, 0x20, 0x5B, 0x44, 0x4F, 0x4E, 0x45,
      0x5D, 0x0A, 0x0A]"



text \<open>
  An agent \<open>image\<close> with a tool whose handler answers and a tool whose handler throws; a
  lenient parser that knows the argument text \<open>{n:1}\<close>; and a \<open>fetch\<close> that gives the
  same answer to every request.
\<close>

definition ok_tool :: ITool where
  "ok_tool = \<lparr>handler = (\<lambda>args req. Inr ''a cat'')\<rparr>"

definition failing_tool :: ITool where
  "failing_tool = \<lparr>handler = (\<lambda>args req. Inl (JsError ''Error'' None))\<rparr>"

definition image_agent :: IAgent where
  "image_agent =
     \<lparr>agent_name = ''image'',
      agent_tools = (\<lambda>name. if name = ''analyzeImage'' then Some ok_tool
                            else if name = ''brokenTool'' then Some failing_tool
                            else None)\<rparr>"

definition example_env :: "fetch_result \<Rightarrow> interceptor_env" where
  "example_env response =
     \<lparr>getAgent = (\<lambda>name. if name = ''image'' then Some image_agent else None),
      JSON5_parse = (\<lambda>s. if s = ''{n:1}'' then Some (JObj [(''n'', JNum 1)]) else None),
      fetch_messages = (\<lambda>sent. response)\<rparr>"

definition tool_start :: "int \<Rightarrow> string \<Rightarrow> string \<Rightarrow> SSEEvent" where
  "tool_start i name tid =
     \<lparr>ev_event = Some ''content_block_start'',
      ev_data = Some \<lparr>sd_type = Some ''content_block_start'', sd_index = Some i,
                      sd_content_block = Some \<lparr>cb_type = ''tool_use'', cb_name = Some name,
                                               cb_id = Some tid\<rparr>,
                      sd_delta = None, sd_rest = JNull\<rparr>\<rparr>"

definition args_delta :: "int \<Rightarrow> string \<Rightarrow> SSEEvent" where
  "args_delta i fragment =
     \<lparr>ev_event = Some ''content_block_delta'',
      ev_data = Some \<lparr>sd_type = Some ''content_block_delta'', sd_index = Some i,
                      sd_content_block = None,
                      sd_delta = Some \<lparr>delta_type = ''input_json_delta'',
                                       partial_json = Some fragment\<rparr>,
                      sd_rest = JNull\<rparr>\<rparr>"

definition block_stop :: "int \<Rightarrow> SSEEvent" where
  "block_stop i =
     \<lparr>ev_event = Some ''content_block_stop'',
      ev_data = Some \<lparr>sd_type = Some ''content_block_stop'', sd_index = Some i,
                      sd_content_block = None, sd_delta = None, sd_rest = JNull\<rparr>\<rparr>"

definition plain_event :: "string \<Rightarrow> json \<Rightarrow> SSEEvent" where
  "plain_event name rest =
     \<lparr>ev_event = Some name,
      ev_data = Some \<lparr>sd_type = Some name, sd_index = None, sd_content_block = None,
                      sd_delta = None, sd_rest = rest\<rparr>\<rparr>"

definition turn_complete :: SSEEvent where
  "turn_complete = plain_event ''message_delta'' (JObj [(''stop_reason'', JStr ''tool_use'')])"

text \<open>
  The state of a stream after one call of \<open>analyzeImage\<close> was intercepted and executed:
  one tool-use entry and one tool-result entry are recorded.
\<close>

definition recorded_use :: ToolUseMessage where
  "recorded_use =
     \<lparr>tu_id = Some ''toolu_1'', tu_name = ''analyzeImage'', tu_input = JObj [(''n'', JNum 1)]\<rparr>"

definition recorded_result :: ToolResultMessage where
  "recorded_result = \<lparr>tr_tool_use_id = Some ''toolu_1'', tr_content = Some ''a cat''\<rparr>"

definition user_message :: MessageParam where
  "user_message = \<lparr>role = ''user'', content = ContentString ''what is in the image?''\<rparr>"

definition one_tool_done :: proc_state where
  "one_tool_done =
     \<lparr>tool_state = createAgentToolState\<lparr>toolMessages := [recorded_result],
                                         assistantMessages := [recorded_use]\<rparr>,
      history = [Original user_message], requests = [], console = [], aborted = False\<rparr>"

section \<open>Properties of the token count\<close>

lemma foldl_add_acc:
  fixes f :: "nat \<Rightarrow> 'a \<Rightarrow> nat"
  assumes "\<And>n x. f n x = n + f 0 x"
  shows "foldl f n xs = n + foldl f 0 xs"
proof (induction xs arbitrary: n)
  case Nil
  then show ?case by simp
next
  case (Cons x xs)
  have "foldl f n (x # xs) = foldl f (f n x) xs" by simp
  also have "\<dots> = f n x + foldl f 0 xs" by (rule Cons.IH)
  also have "\<dots> = n + (f 0 x + foldl f 0 xs)" using assms[of n x] by simp
  also have "f 0 x + foldl f 0 xs = foldl f (f 0 x) xs" by (rule Cons.IH[symmetric])
  finally show ?case by simp
qed

lemma count_part_acc: "count_part tok str n p = n + count_part tok str 0 p"
  by (induction tok str n p rule: count_part.induct) simp_all

lemma count_message_acc: "count_message tok str n m = n + count_message tok str 0 m"
proof (cases "content m")
  case (ContentString x)
  then show ?thesis by (simp add: count_message_def)
next
  case (ContentParts ps)
  have "foldl (count_part tok str) n ps = n + foldl (count_part tok str) 0 ps"
    by (rule foldl_add_acc) (rule count_part_acc)
  with ContentParts show ?thesis by (simp add: count_message_def)
qed

lemma count_system_item_acc: "count_system_item tok n i = n + count_system_item tok 0 i"
proof -
  have *: "foldl (\<lambda>k textPart. k + tok textPart) n ts
           = n + foldl (\<lambda>k textPart. k + tok textPart) 0 ts" for ts
    by (rule foldl_add_acc) simp
  show ?thesis
    unfolding count_system_item_def
    by (simp add: * split: option.split sys_text.split)
qed

lemma count_tool_acc: "count_tool tok str n t = n + count_tool tok str 0 t"
  unfolding count_tool_def by (simp add: Let_def split: option.split)

lemma system_section:
  "(case s of None \<Rightarrow> n
    | Some (SystemString x) \<Rightarrow> n + tok x
    | Some (SystemBlocks items) \<Rightarrow> foldl (count_system_item tok) n items)
   = n + (case s of None \<Rightarrow> 0
          | Some (SystemString x) \<Rightarrow> tok x
          | Some (SystemBlocks items) \<Rightarrow> foldl (count_system_item tok) 0 items)"
proof -
  have "foldl (count_system_item tok) n items = n + foldl (count_system_item tok) 0 items"
    for items
    by (rule foldl_add_acc) (rule count_system_item_acc)
  then show ?thesis by (simp split: option.split SystemPrompt.split)
qed

lemma tools_section:
  "(case t of None \<Rightarrow> n | Some ts \<Rightarrow> foldl (count_tool tok str) n ts)
   = n + (case t of None \<Rightarrow> 0 | Some ts \<Rightarrow> foldl (count_tool tok str) 0 ts)"
proof -
  have "foldl (count_tool tok str) n ts = n + foldl (count_tool tok str) 0 ts" for ts
    by (rule foldl_add_acc) (rule count_tool_acc)
  then show ?thesis by (simp split: option.split)
qed

text \<open>The count is the sum of what each of the three sections contributes on its own.\<close>

lemma calculateTokenCount_sections:
  "calculateTokenCount tok str m s t =
     (case m of None \<Rightarrow> 0 | Some ms \<Rightarrow> foldl (count_message tok str) 0 ms)
   + (case s of None \<Rightarrow> 0
      | Some (SystemString x) \<Rightarrow> tok x
      | Some (SystemBlocks items) \<Rightarrow> foldl (count_system_item tok) 0 items)
   + (case t of None \<Rightarrow> 0 | Some ts \<Rightarrow> foldl (count_tool tok str) 0 ts)"
  unfolding calculateTokenCount_def Let_def
  by (subst tools_section, subst system_section) simp

text \<open>
  Claim C7. For every messages list \<open>m\<close>, system prompt \<open>s\<close> and tools list \<open>t\<close>,
  \<open>calculateTokenCount(m, s, t)\<close> is the sum of the counts of the three sections taken
  alone, whatever the tokenizer and \<open>JSON.stringify\<close> are. The empty section is
  written in each of the ways the callers write it: \<open>undefined\<close> (the first equation),
  the test's \<open>([], undefined, [])\<close> (the second), and the router's default \<open>system = []\<close>
  (the third).
\<close>

theorem calculateTokenCount_additive:
  "calculateTokenCount tok str m s t =
     calculateTokenCount tok str m None None
   + calculateTokenCount tok str None s None
   + calculateTokenCount tok str None None t
   \<and> calculateTokenCount tok str m s t =
     calculateTokenCount tok str m None (Some [])
   + calculateTokenCount tok str (Some []) s (Some [])
   + calculateTokenCount tok str (Some []) None t
   \<and> calculateTokenCount tok str m s t =
     calculateTokenCount tok str m (Some (SystemBlocks [])) (Some [])
   + calculateTokenCount tok str (Some []) s (Some [])
   + calculateTokenCount tok str (Some []) (Some (SystemBlocks [])) t"
  by (simp add: calculateTokenCount_sections)


section \<open>Properties of the route selection\<close>

lemma rule_target_Some:
  "(rule_target c t = Some x) = (c \<and> t = Some x \<and> x \<noteq> [])"
  by (auto simp: rule_target_def split: option.splits)

lemma rule_target_None:
  "(rule_target c t = None) = (\<not> c \<or> \<not> truthy_str t)"
  by (auto simp: rule_target_def truthy_str_def split: option.splits)

lemma split_on_nonempty [simp]: "split_on sep xs \<noteq> []"
  by (induction xs) (auto split: list.splits)

lemma split_on_first_separator:
  "sep \<notin> set xs \<Longrightarrow> split_on sep (xs @ sep # ys) = xs # split_on sep ys"
  by (induction xs) auto

lemma includes_separator: "includes_str (xs @ sep # ys) [sep]"
  by (induction xs) auto

text \<open>
  Rule 1 on its own. A request whose model contains a comma is answered from the model
  string and the provider list alone: the route configuration, the override files, the
  token count and the last usage play no part.
\<close>

lemma explicit_pair_ignores_routing_rules:
  assumes "includes_str (model (body req)) '',''"
  shows "getUseModel env req tokenCount config lastUsage
         = getUseModel env' req tokenCount' (config\<lparr>Router := r'\<rparr>) lastUsage'"
  using assms by (simp add: getUseModel_def Let_def split: list.split)

text \<open>
  What resolves: the provider part must be the lower-cased name of a configured
  provider, and the model part (up to a second comma) the lower-cased form of one of
  its models. The answer is then the configured spelling of both.
\<close>

lemma explicit_pair_resolves_lower_case:
  assumes parts: "model (body req) = provider @ '','' @ model_part"
    and "CHR '','' \<notin> set provider"
    and provider: "find (\<lambda>p. toLowerCase (p_name p) = provider) (Providers config) = Some p"
    and models: "p_models p = Some ms"
    and model: "find (\<lambda>m. toLowerCase m = hd (split_on CHR '','' model_part)) ms = Some fm"
    and "fm \<noteq> []"
  shows "getUseModel env req tokenCount config lastUsage
         = Inr (p_name p @ '','' @ fm, req, [])"
proof -
  obtain w ws where s: "split_on CHR '','' model_part = w # ws"
    by (cases "split_on CHR '','' model_part") simp_all
  have sp: "split_on CHR '','' (model (body req)) = provider # w # ws"
    using assms(2) split_on_first_separator[of "CHR '',''" provider model_part]
    by (simp add: parts s)
  have inc: "includes_str (model (body req)) '',''"
    using includes_separator[of provider "CHR '',''" model_part] by (simp add: parts)
  show ?thesis
    using inc provider models model assms(6)
    by (simp add: getUseModel_def Let_def sp s)
qed

text \<open>
  With an override in force, the global configuration reaches the answer through its
  provider list (rule 1) and its background target (rule 4) only.
\<close>

lemma override_limits_global_config:
  assumes "getProjectSpecificRouter env req = Some r"
    and "Providers config' = Providers config"
    and "rc_background (Router config') = rc_background (Router config)"
  shows "getUseModel env req tokenCount config' lastUsage
         = getUseModel env req tokenCount config lastUsage"
  using assms
  by (simp add: getUseModel_def activeRouter_def Let_def
      cong: list.case_cong option.case_cong subagent_result.case_cong if_cong)

text \<open>
  Claim C2, at the failing input. The request names \<open>OPENROUTER,claude-sonnet-4\<close>
  and the configuration has the provider \<open>openrouter\<close> with the model
  \<open>claude-sonnet-4\<close>. The provider part equals the configured name up to case, yet
  \<open>getUseModel\<close> compares the lower-cased configured name with the request's part as it
  was sent, finds no provider, and returns the raw string instead of the canonical
  \<open>openrouter,claude-sonnet-4\<close>.
\<close>

theorem explicit_pair_uppercase_request:
  "getUseModel no_overrides (plain_request ''OPENROUTER,claude-sonnet-4'') tokenCount
     \<lparr>Providers = [\<lparr>p_name = ''openrouter'', p_models = Some [''claude-sonnet-4'']\<rparr>],
      Router = route_config ''openrouter,claude-sonnet-4'' None None None\<rparr> lastUsage
   = Inr (''OPENROUTER,claude-sonnet-4'', plain_request ''OPENROUTER,claude-sonnet-4'', [])
   \<and> toLowerCase ''OPENROUTER'' = toLowerCase ''openrouter''
   \<and> ''OPENROUTER,claude-sonnet-4'' \<noteq> ''openrouter'' @ '','' @ ''claude-sonnet-4''"
  by (simp add: getUseModel_def activeRouter_def getProjectSpecificRouter_def Let_def
      plain_request_def toLowerCase_def toLowerCaseChar_def)

text \<open>
  Claim C3, at the failing input. Session \<open>s1\<close> has a session-scoped configuration
  file with a routing section (default \<open>override,def\<close>, background \<open>override,bg\<close>), and
  the request asks for a model whose name contains \<open>claude\<close> and \<open>haiku\<close>. The
  background rule reads \<open>config.Router.background\<close>, the global configuration: with a
  global background target the answer is that global target, and with none the rule
  does not fire and the override's default is returned; the override's own background
  target is never used.
\<close>

theorem background_rule_reads_global_config:
  "getProjectSpecificRouter
     (session_override (route_config ''override,def'' (Some ''override,bg'') None None))
     (session_request ''claude-3-5-haiku'')
   = Some (route_config ''override,def'' (Some ''override,bg'') None None)
   \<and> getUseModel
       (session_override (route_config ''override,def'' (Some ''override,bg'') None None))
       (session_request ''claude-3-5-haiku'') 100
       \<lparr>Providers = [], Router = route_config ''global,def'' (Some ''global,bg'') None None\<rparr> None
     = Inr (''global,bg'', session_request ''claude-3-5-haiku'',
            [LogBackground ''claude-3-5-haiku''])
   \<and> getUseModel
       (session_override (route_config ''override,def'' (Some ''override,bg'') None None))
       (session_request ''claude-3-5-haiku'') 100
       \<lparr>Providers = [], Router = route_config ''global,def'' None None None\<rparr> None
     = Inr (''override,def'', session_request ''claude-3-5-haiku'', [])"
  by (simp add: getUseModel_def activeRouter_def getProjectSpecificRouter_def Let_def
      session_override_def session_request_def route_config_def rule_target_def
      longContextThreshold_of_def subagentModel_def HOME_DIR_def)

text \<open>
  Claim C4 as stated fails in two ways. A configured threshold of \<open>0\<close> is falsy, so
  \<open>Router.longContextThreshold || 60000\<close> is 60000: with 30000 tokens the stated
  condition holds (30000 exceeds 0) and the default target is returned. And a later
  rule can return the same string as the long-context target: with the default target
  equal to it, the target is returned although the condition fails.
\<close>

theorem long_context_counterexample:
  "\<not> ((\<exists>rq lg. getUseModel no_overrides (plain_request ''claude-sonnet-4'') 30000
               \<lparr>Providers = [], Router = route_config ''p,def'' None (Some ''p,long'') (Some 0)\<rparr>
               None
             = Inr (''p,long'', rq, lg))
       = spec_longContextTriggers (route_config ''p,def'' None (Some ''p,long'') (Some 0))
           30000 None)
   \<and> \<not> ((\<exists>rq lg. getUseModel no_overrides (plain_request ''claude-sonnet-4'') 0
               \<lparr>Providers = [], Router = route_config ''p,long'' None (Some ''p,long'') None\<rparr>
               None
             = Inr (''p,long'', rq, lg))
       = spec_longContextTriggers (route_config ''p,long'' None (Some ''p,long'') None) 0 None)"
  by (simp add: getUseModel_def activeRouter_def getProjectSpecificRouter_def Let_def
      plain_request_def route_config_def rule_target_def
      longContextThreshold_of_def subagentModel_def spec_longContextTriggers_def
      spec_longContextThreshold_def truthy_str_def)

text \<open>
  Claim C4, amended. For a request whose model has no comma, \<open>getUseModel\<close> takes the
  long-context rule (it returns the long-context target of the active route
  configuration, leaves the request as it is and logs the long-context line) if and only
  if that target is configured and either the token count exceeds the threshold, or
  the last usage's \<open>input_tokens\<close> exceeds the threshold and the token count exceeds
  20000. The threshold is the configured \<open>longContextThreshold\<close> when it is set and
  not zero, and 60000 otherwise.
\<close>

theorem getUseModel_long_context_rule:
  assumes no_comma: "\<not> includes_str (model (body req)) '',''"
    and R: "R = activeRouter env req config"
    and thr: "thr = (case rc_longContextThreshold R of
                       None \<Rightarrow> 60000
                     | Some n \<Rightarrow> if n = 0 then 60000 else n)"
  shows "(\<exists>target. rc_longContext R = Some target \<and>
            getUseModel env req tokenCount config lastUsage
              = Inr (target, req, [LogLongContext tokenCount thr]))
         = (truthy_str (rc_longContext R) \<and>
            (tokenCount > thr \<or>
             (\<exists>u. lastUsage = Some u \<and> input_tokens u > thr \<and> tokenCount > 20000)))"
proof -
  let ?fires = "(case lastUsage of None \<Rightarrow> False
                 | Some u \<Rightarrow> input_tokens u > thr \<and> tokenCount > 20000) \<or> tokenCount > thr"
  have thr': "longContextThreshold_of R = thr"
    by (simp add: thr longContextThreshold_of_def)
  have fires_eq: "?fires = (tokenCount > thr \<or>
             (\<exists>u. lastUsage = Some u \<and> input_tokens u > thr \<and> tokenCount > 20000))"
    by (cases lastUsage) auto
  show ?thesis
  proof (cases "rule_target ?fires (rc_longContext R)")
    case None
    then have "\<not> ?fires \<or> \<not> truthy_str (rc_longContext R)"
      by (simp add: rule_target_None)
    moreover have "\<not> (\<exists>target. rc_longContext R = Some target \<and>
            getUseModel env req tokenCount config lastUsage
              = Inr (target, req, [LogLongContext tokenCount thr]))"
      using None no_comma
      by (cases lastUsage)
         (auto simp: getUseModel_def Let_def R[symmetric] thr'
          split: option.splits subagent_result.splits)
    ultimately show ?thesis using fires_eq by blast
  next
    case (Some target)
    then have t: "?fires" "rc_longContext R = Some target" "target \<noteq> []"
      by (simp_all add: rule_target_Some)
    have "getUseModel env req tokenCount config lastUsage
              = Inr (target, req, [LogLongContext tokenCount thr])"
      using Some no_comma
      by (cases lastUsage) (simp_all add: getUseModel_def Let_def R[symmetric] thr')
    moreover have "truthy_str (rc_longContext R)" using t by (simp add: truthy_str_def)
    ultimately show ?thesis using t fires_eq by blast
  qed
qed

theorem getUseModel_long_context_rule_witness:
  "\<not> includes_str (model (body (plain_request ''claude-sonnet-4''))) '',''
   \<and> getUseModel no_overrides (plain_request ''claude-sonnet-4'') 70000
        \<lparr>Providers = [], Router = route_config ''p,def'' None (Some ''p,long'') (Some 60000)\<rparr>
        None
      = Inr (''p,long'', plain_request ''claude-sonnet-4'', [LogLongContext 70000 60000])"
proof -
  let ?req = "plain_request ''claude-sonnet-4''"
  let ?R = "route_config ''p,def'' None (Some ''p,long'') (Some 60000)"
  let ?cfg = "\<lparr>Providers = [], Router = ?R\<rparr>"
  have c: "\<not> includes_str (model (body ?req)) '',''"
    by (simp add: plain_request_def)
  have R: "?R = activeRouter no_overrides ?req ?cfg"
    by (simp add: activeRouter_def getProjectSpecificRouter_def plain_request_def)
  have thr: "(60000::int) = (case rc_longContextThreshold ?R of
                       None \<Rightarrow> 60000
                     | Some n \<Rightarrow> if n = 0 then 60000 else n)"
    by (simp add: route_config_def)
  from getUseModel_long_context_rule[OF c R thr, of 70000 None]
  show ?thesis using c by (simp add: route_config_def truthy_str_def)
qed


section \<open>Properties of the event parser\<close>

lemma ascii_Nil [simp]: "ascii [] = []"
  by (simp add: ascii_def)

lemma ascii_Cons [simp]: "ascii (c # cs) = of_char c # ascii cs"
  by (simp add: ascii_def)

lemmas parser_defs =
  SSEParserTransform_def parser_init_def transform_def flush_def processLine_def
  TextDecoder_decode_def utf8_lead_of_def js_trim_def is_js_space_def startsWith_def
  has_keys_def empty_event_def Let_def

text \<open>
  Claim C5, at the failing input. The stream \<open>event: caf\<close>U+00E9, \<open>data: [DONE]\<close> and a
  blank line is well formed. Parsed as one chunk it gives one event named
  \<open>caf\<close>U+00E9. Split between the two bytes of U+00E9, the same bytes give an event
  whose name ends in two U+FFFD: each chunk is decoded by a decoder of its own, so the
  lead byte at the end of the first chunk and the continuation byte at the start of the
  second are each replaced.
\<close>

theorem multibyte_character_split_across_chunks:
  "SSEParserTransform json_parse [cafe_stream]
   = [\<lparr>pe_event = Some [0x63, 0x61, 0x66, 0xE9], pe_data = Some DoneData,
       pe_id = None, pe_retry = None\<rparr>]
   \<and> SSEParserTransform json_parse [take 11 cafe_stream, drop 11 cafe_stream]
   = [\<lparr>pe_event = Some [0x63, 0x61, 0x66, 0xFFFD, 0xFFFD], pe_data = Some DoneData,
       pe_id = None, pe_retry = None\<rparr>]"
  by (simp add: cafe_stream_def parser_defs)

lemma js_trim_nonempty:
  assumes "\<not> is_js_space c"
  shows "js_trim (c # cs) \<noteq> []"
proof -
  have "dropWhile is_js_space (rev cs @ [c]) \<noteq> []"
    using assms by (simp add: dropWhile_append)
  with assms show ?thesis by (simp add: js_trim_def)
qed

lemma data_line_shape:
  assumes "startsWith line (ascii ''data:'')"
  shows "js_trim line \<noteq> []" and "\<not> startsWith line (ascii ''event:'')"
proof -
  from assms obtain rest where line: "line = ascii ''data:'' @ rest"
    by (auto simp: startsWith_def prefix_def)
  have "\<not> is_js_space 100" by (simp add: is_js_space_def)
  then show "js_trim line \<noteq> []"
    unfolding line by (simp add: js_trim_nonempty)
  show "\<not> startsWith line (ascii ''event:'')"
    unfolding line by (simp add: startsWith_def)
qed

lemma malformed_processLine:
  assumes data_line: "startsWith line (ascii ''data:'')"
    and payload: "payload = js_trim (drop 5 line)"
    and not_terminator: "payload \<noteq> ascii ''[DONE]''"
    and not_json: "json_parse payload = None"
  shows "processLine json_parse line events cur
           = (None, events, cur\<lparr>pe_data := Some (RawData payload)\<rparr>)"
  using data_line_shape[OF data_line] data_line not_terminator not_json
  by (simp add: processLine_def Let_def payload[symmetric])

text \<open>
  Lines that are complete in the text (each followed by a line feed) come out of the
  split as they are, and \<open>transform\<close> processes them in order before it goes on with
  the rest of the text.
\<close>

lemma split_on_lines:
  assumes "\<forall>l \<in> set ls. sep \<notin> set l"
  shows "split_on sep (concat (map (\<lambda>l. l @ [sep]) ls) @ tail) = ls @ split_on sep tail"
  using assms
proof (induction ls)
  case Nil
  then show ?case by simp
next
  case (Cons l ls)
  then have "sep \<notin> set l" and IH: "split_on sep (concat (map (\<lambda>l. l @ [sep]) ls) @ tail)
                                     = ls @ split_on sep tail"
    by simp_all
  then show ?case
    using split_on_first_separator[of sep l "concat (map (\<lambda>l. l @ [sep]) ls) @ tail"]
    by simp
qed

lemma process_lines_append:
  "process_lines jp (l1 @ l2) cur
   = (case process_lines jp l1 cur of
        (c1, o1) \<Rightarrow> (case process_lines jp l2 c1 of (c2, o2) \<Rightarrow> (c2, o1 @ o2)))"
  by (induction l1 arbitrary: cur) (auto split: prod.splits)

lemma transform_lines:
  assumes "buffer st @ TextDecoder_decode chunk = concat (map (\<lambda>l. l @ [10]) ls) @ rest"
    and "\<forall>l \<in> set ls. 10 \<notin> set l"
    and "process_lines jp ls (currentEvent st) = (cur, out)"
    and "TextDecoder_decode chunk' = rest"
  shows "transform jp chunk st
         = (case transform jp chunk' \<lparr>buffer = [], currentEvent = cur\<rparr> of
              (st', later) \<Rightarrow> (st', out @ later))"
proof -
  have s: "split_on 10 (buffer st @ TextDecoder_decode chunk) = ls @ split_on 10 rest"
    unfolding assms(1) by (rule split_on_lines[OF assms(2)])
  have b: "butlast (ls @ split_on 10 rest) = ls @ butlast (split_on 10 rest)"
    by (simp add: butlast_append)
  have l: "last (ls @ split_on 10 rest) = last (split_on 10 rest)"
    by simp
  show ?thesis
    unfolding transform_def Let_def s b l
    by (simp add: process_lines_append assms(3) assms(4) split: prod.split)
qed

text \<open>
  Claim C8. A line that starts with \<open>data:\<close> and whose trimmed remainder is neither the
  terminator \<open>[DONE]\<close> nor accepted by \<open>JSON.parse\<close> does not make the parser throw:
  \<open>processLine\<close> returns no event, leaves the \<open>events\<close> array as it is, and sets the
  draft's payload to the raw text with the parse-error marker. In a stream, let the line
  arrive complete in a chunk, after the lines \<open>earlier\<close> of the same text (the buffered
  start included), and let \<open>out\<close> and \<open>cur\<close> be the events and the draft those lines
  gave. Then \<open>transform\<close> enqueues \<open>out\<close> and goes on with the text after the line as it
  would from an empty buffer and the marked draft; so does the whole stream, with the
  chunks that follow. When a blank line comes next, the event with the marked payload is
  emitted, and what follows is parsed as from a fresh draft.
\<close>

theorem malformed_data_line:
  assumes data_line: "startsWith line (ascii ''data:'')"
    and one_line: "10 \<notin> set line"
    and payload: "payload = js_trim (drop 5 line)"
    and not_terminator: "payload \<noteq> ascii ''[DONE]''"
    and not_json: "json_parse payload = None"
    and earlier_lines: "\<forall>l \<in> set earlier. 10 \<notin> set l"
    and arrives: "buffer st @ TextDecoder_decode chunk
                  = concat (map (\<lambda>l. l @ [10]) earlier) @ line @ 10 # rest"
    and before: "process_lines json_parse earlier (currentEvent st) = (cur, out)"
    and draft: "draft = cur\<lparr>pe_data := Some (RawData payload)\<rparr>"
    and remainder: "TextDecoder_decode chunk' = rest"
  shows "(\<forall>events c. processLine json_parse line events c
                         = (None, events, c\<lparr>pe_data := Some (RawData payload)\<rparr>))
         \<and> transform json_parse chunk st
           = (case transform json_parse chunk' \<lparr>buffer = [], currentEvent = draft\<rparr> of
                (st', later) \<Rightarrow> (st', out @ later))
         \<and> parse_chunks json_parse (chunk # chunks) st
           = out @ parse_chunks json_parse (chunk' # chunks)
                     \<lparr>buffer = [], currentEvent = draft\<rparr>
         \<and> (\<forall>rest' chunk''.
               rest = 10 # rest' \<and> TextDecoder_decode chunk'' = rest' \<longrightarrow>
               parse_chunks json_parse (chunk # chunks) st
               = out @ draft # parse_chunks json_parse (chunk'' # chunks)
                                 \<lparr>buffer = [], currentEvent = empty_event\<rparr>)"
proof -
  have pl_any: "processLine json_parse line ev c
                = (None, ev, c\<lparr>pe_data := Some (RawData payload)\<rparr>)" for ev c
    using data_line payload not_terminator not_json by (rule malformed_processLine)
  have pl: "processLine json_parse line ev cur = (None, ev, draft)" for ev
    unfolding draft by (rule pl_any)
  have lines: "process_lines json_parse (earlier @ [line]) (currentEvent st) = (draft, out)"
    by (simp add: process_lines_append before pl)
  have t: "transform json_parse chunk st
           = (case transform json_parse chunk' \<lparr>buffer = [], currentEvent = draft\<rparr> of
                (st', later) \<Rightarrow> (st', out @ later))"
  proof (rule transform_lines[OF _ _ lines remainder])
    show "buffer st @ TextDecoder_decode chunk
          = concat (map (\<lambda>l. l @ [10]) (earlier @ [line])) @ rest"
      by (simp add: arrives)
    show "\<forall>l \<in> set (earlier @ [line]). 10 \<notin> set l"
      using earlier_lines one_line by simp
  qed
  have blank: "parse_chunks json_parse (chunk # chunks) st
               = out @ draft # parse_chunks json_parse (chunk'' # chunks)
                                 \<lparr>buffer = [], currentEvent = empty_event\<rparr>"
    if r: "rest = 10 # rest'" and c: "TextDecoder_decode chunk'' = rest'" for rest' chunk''
  proof -
    have keys: "has_keys draft" by (simp add: draft has_keys_def)
    have bl: "processLine json_parse [] None draft = (Some draft, None, empty_event)"
      using keys by (simp add: processLine_def js_trim_def)
    have lines': "process_lines json_parse (earlier @ [line, []]) (currentEvent st)
                  = (empty_event, out @ [draft])"
      by (simp add: process_lines_append before pl bl)
    have "transform json_parse chunk st
          = (case transform json_parse chunk'' \<lparr>buffer = [], currentEvent = empty_event\<rparr> of
               (st', later) \<Rightarrow> (st', (out @ [draft]) @ later))"
    proof (rule transform_lines[OF _ _ lines' c])
      show "buffer st @ TextDecoder_decode chunk
            = concat (map (\<lambda>l. l @ [10]) (earlier @ [line, []])) @ rest'"
        by (simp add: arrives r)
      show "\<forall>l \<in> set (earlier @ [line, []]). 10 \<notin> set l"
        using earlier_lines one_line by simp
    qed
    then show ?thesis
      by (simp split: prod.split)
  qed
  have pc: "parse_chunks json_parse (chunk # chunks) st
           = out @ parse_chunks json_parse (chunk' # chunks)
                     \<lparr>buffer = [], currentEvent = draft\<rparr>"
    by (simp add: t split: prod.split)
  show ?thesis
    using pl_any t pc blank by simp
qed


theorem malformed_data_line_witness:
  "startsWith (ascii ''data: {broken'') (ascii ''data:'')
   \<and> js_trim (drop 5 (ascii ''data: {broken'')) \<noteq> ascii ''[DONE]''
   \<and> example_json_parse (js_trim (drop 5 (ascii ''data: {broken''))) = None
   \<and> SSEParserTransform example_json_parse [broken_chunk, ping_chunk]
     = [\<lparr>pe_event = None, pe_data = Some (RawData (ascii ''{broken'')),
         pe_id = Some (ascii ''7''), pe_retry = None\<rparr>,
        \<lparr>pe_event = Some (ascii ''ping''), pe_data = Some DoneData, pe_id = None,
         pe_retry = None\<rparr>]"
proof -
  let ?line = "ascii ''data: {broken''"
  let ?cur = "\<lparr>pe_event = None, pe_data = None, pe_id = Some (ascii ''7''),
               pe_retry = None\<rparr> :: json ParsedSSEEvent"
  let ?draft = "\<lparr>pe_event = None, pe_data = Some (RawData (ascii ''{broken'')),
                 pe_id = Some (ascii ''7''), pe_retry = None\<rparr> :: json ParsedSSEEvent"
  have h1: "startsWith ?line (ascii ''data:'')"
    by (simp add: startsWith_def)
  have h2: "10 \<notin> set ?line" by simp
  have p: "ascii ''{broken'' = js_trim (drop 5 ?line)"
    by (simp add: js_trim_def is_js_space_def)
  have h3: "ascii ''{broken'' \<noteq> ascii ''[DONE]''" by simp
  have h4: "example_json_parse (ascii ''{broken'') = None"
    by (simp add: example_json_parse_def)
  have h5: "\<forall>l \<in> set [ascii ''id: 7'']. 10 \<notin> set l" by simp
  have h6: "buffer (parser_init :: json parser_state) @ TextDecoder_decode broken_chunk
            = concat (map (\<lambda>l. l @ [10]) [ascii ''id: 7''])
              @ ?line @ 10 # (10 # ascii ''event: pi'')"
    by (simp add: parser_init_def broken_chunk_def TextDecoder_decode_def utf8_lead_of_def)
  have h7: "process_lines example_json_parse [ascii ''id: 7'']
              (currentEvent (parser_init :: json parser_state)) = (?cur, [])"
    by (simp add: parser_init_def empty_event_def processLine_def js_trim_def is_js_space_def
        startsWith_def)
  have h8: "?draft = ?cur\<lparr>pe_data := Some (RawData (ascii ''{broken''))\<rparr>"
    by simp
  have h9: "TextDecoder_decode (drop 20 broken_chunk) = 10 # ascii ''event: pi''"
    by (simp add: broken_chunk_def TextDecoder_decode_def utf8_lead_of_def)
  have h10: "TextDecoder_decode (drop 21 broken_chunk) = ascii ''event: pi''"
    by (simp add: broken_chunk_def TextDecoder_decode_def utf8_lead_of_def)
  from malformed_data_line[where json_parse = example_json_parse and chunks = "[ping_chunk]",
      OF h1 h2 p h3 h4 h5 h6 h7 h8 h9] h10
  have "parse_chunks example_json_parse [broken_chunk, ping_chunk] parser_init
        = [] @ ?draft # parse_chunks example_json_parse [drop 21 broken_chunk, ping_chunk]
                     \<lparr>buffer = [], currentEvent = empty_event\<rparr>"
    by blast
  also have "parse_chunks example_json_parse [drop 21 broken_chunk, ping_chunk]
                     \<lparr>buffer = [], currentEvent = empty_event\<rparr>
             = [\<lparr>pe_event = Some (ascii ''ping''), pe_data = Some DoneData, pe_id = None,
                 pe_retry = None\<rparr>]"
    by (simp add: broken_chunk_def ping_chunk_def transform_def flush_def processLine_def
        TextDecoder_decode_def utf8_lead_of_def js_trim_def is_js_space_def startsWith_def
        has_keys_def empty_event_def Let_def)
  finally show ?thesis
    using h1 h3 h4 p by (simp add: SSEParserTransform_def)
qed

text \<open>
  A stream that ends without the blank line: \<open>flush\<close> processes the buffered last
  line and emits the draft. The bytes are \<open>event: ping\<close>, a line feed and
  \<open>data: [DONE]\<close>.
\<close>

lemma stream_without_final_blank_line:
  "SSEParserTransform json_parse
     [[0x65, 0x76, 0x65, 0x6E, 0x74, 0x3A, 0x20, 0x70, 0x69, 0x6E, 0x67, 0x0A,
       0x64, 0x61, 0x74, 0x61, 0x3A, 0x20, 0x5B, 0x44, 0x4F, 0x4E, 0x45, 0x5D]]
   = [\<lparr>pe_event = Some (ascii ''ping''), pe_data = Some DoneData,
       pe_id = None, pe_retry = None\<rparr>]"
  by (simp add: parser_defs)

subsection \<open>Re-chunking of decoded text\<close>

text \<open>
  What the parser does get right: lines are reassembled across chunks. Splitting a text
  in two and splitting the pieces at the separator gives the same lines, the last piece
  of the first part being joined to the first piece of the second.
\<close>

lemma split_on_append:
  "split_on sep (xs @ ys)
   = butlast (split_on sep xs) @ split_on sep (last (split_on sep xs) @ ys)"
proof (induction xs)
  case Nil
  then show ?case by simp
next
  case (Cons c cs)
  show ?case
  proof (cases "c = sep")
    case True
    then show ?thesis using Cons.IH by simp
  next
    case False
    obtain w ws where s: "split_on sep cs = w # ws"
      by (cases "split_on sep cs") simp_all
    show ?thesis
    proof (cases ws)
      case Nil
      with s False Cons.IH show ?thesis by simp
    next
      case (Cons w' ws')
      with s False Cons.IH show ?thesis by simp
    qed
  qed
qed

lemma split_on_no_separator: "sep \<notin> set xs \<Longrightarrow> split_on sep xs = [xs]"
  by (induction xs) auto

lemma last_split_on_no_separator: "sep \<notin> set (last (split_on sep xs))"
proof (induction xs)
  case Nil
  then show ?case by simp
next
  case (Cons c cs)
  obtain w ws where s: "split_on sep cs = w # ws"
    by (cases "split_on sep cs") simp_all
  show ?case
    using Cons.IH by (cases ws) (auto simp: s)
qed

text \<open>
  Two chunks whose concatenation decodes to the concatenation of their texts can be
  merged: the parser ends in the same state and has enqueued the same events.
\<close>

lemma transform_merge:
  assumes "TextDecoder_decode (c1 @ c2) = TextDecoder_decode c1 @ TextDecoder_decode c2"
  shows "transform jp (c1 @ c2) st
         = (case transform jp c1 st of
              (st1, o1) \<Rightarrow> (case transform jp c2 st1 of (st2, o2) \<Rightarrow> (st2, o1 @ o2)))"
proof -
  let ?L1 = "split_on 10 (buffer st @ TextDecoder_decode c1)"
  let ?L2 = "split_on 10 (last ?L1 @ TextDecoder_decode c2)"
  have L: "split_on 10 (buffer st @ TextDecoder_decode (c1 @ c2)) = butlast ?L1 @ ?L2"
    unfolding assms
    by (simp add: split_on_append[of 10 "buffer st @ TextDecoder_decode c1", symmetric])
  have b: "butlast (butlast ?L1 @ ?L2) = butlast ?L1 @ butlast ?L2"
    by (simp add: butlast_append)
  have l: "last (butlast ?L1 @ ?L2) = last ?L2"
    by simp
  show ?thesis
    unfolding transform_def Let_def L b l
    by (simp add: process_lines_append split: prod.splits)
qed

lemma parse_chunks_merge:
  assumes "TextDecoder_decode (c1 @ c2) = TextDecoder_decode c1 @ TextDecoder_decode c2"
  shows "parse_chunks jp (c1 # c2 # cs) st = parse_chunks jp ((c1 @ c2) # cs) st"
  by (simp add: transform_merge[OF assms] split: prod.splits)

lemma utf8_decode_ascii:
  "ascii_bytes chunk \<Longrightarrow> utf8_decode None chunk = map unat chunk"
  by (induction chunk) (simp_all add: ascii_bytes_def utf8_lead_of_def)

lemma TextDecoder_decode_ascii:
  assumes "ascii_bytes chunk"
  shows "TextDecoder_decode chunk = map unat chunk"
proof (cases chunk)
  case Nil
  then show ?thesis by (simp add: TextDecoder_decode_def)
next
  case (Cons b bs)
  with assms have "unat b \<le> 0x7F" by (simp add: ascii_bytes_def)
  then have "unat b \<noteq> 0xFEFF" by simp
  moreover have "utf8_decode None chunk = unat b # map unat bs"
    using utf8_decode_ascii[OF assms] by (simp add: Cons)
  ultimately show ?thesis
    by (simp add: TextDecoder_decode_def Cons)
qed

lemma ascii_bytes_append [simp]:
  "ascii_bytes (c1 @ c2) = (ascii_bytes c1 \<and> ascii_bytes c2)"
  by (simp add: ascii_bytes_def)

lemma ascii_bytes_concat: "list_all ascii_bytes cs \<Longrightarrow> ascii_bytes (concat cs)"
  by (induction cs) (simp_all add: ascii_bytes_def)

lemma transform_buffer_no_line_feed:
  "10 \<notin> set (buffer (fst (transform jp chunk st)))"
  by (simp add: transform_def Let_def last_split_on_no_separator split: prod.split)

lemma transform_empty_chunk:
  assumes "10 \<notin> set (buffer st)"
  shows "transform jp [] st = (st, [])"
  using assms
  by (simp add: transform_def TextDecoder_decode_def split_on_no_separator)

lemma parse_chunks_ascii_concat:
  assumes "list_all ascii_bytes cs" and "10 \<notin> set (buffer st)"
  shows "parse_chunks jp cs st = parse_chunks jp [concat cs] st"
  using assms
proof (induction cs arbitrary: st)
  case Nil
  then show ?case by (simp add: transform_empty_chunk)
next
  case (Cons c cs)
  obtain st1 out1 where t: "transform jp c st = (st1, out1)"
    by (cases "transform jp c st")
  have st1: "10 \<notin> set (buffer st1)"
    using transform_buffer_no_line_feed[of jp c st] by (simp add: t)
  from Cons.prems have c: "ascii_bytes c" and cs: "list_all ascii_bytes cs" by simp_all
  have dec: "TextDecoder_decode (c @ concat cs)
             = TextDecoder_decode c @ TextDecoder_decode (concat cs)"
    using c ascii_bytes_concat[OF cs] by (simp add: TextDecoder_decode_ascii)
  have "parse_chunks jp (c # cs) st = out1 @ parse_chunks jp cs st1"
    by (simp add: t)
  also have "\<dots> = out1 @ parse_chunks jp [concat cs] st1"
    by (simp only: Cons.IH[OF cs st1])
  also have "\<dots> = parse_chunks jp [c, concat cs] st"
    by (simp add: t)
  also have "\<dots> = parse_chunks jp [c @ concat cs] st"
    by (rule parse_chunks_merge[OF dec])
  finally show ?case by simp
qed

text \<open>
  For a stream of ASCII bytes the events do not depend on the chunking: two lists of
  chunks with the same bytes give the same events.
\<close>

lemma ascii_stream_rechunking:
  assumes "list_all ascii_bytes chunks1" and "list_all ascii_bytes chunks2"
    and "concat chunks1 = concat chunks2"
  shows "SSEParserTransform jp chunks1 = SSEParserTransform jp chunks2"
proof -
  have b: "10 \<notin> set (buffer (parser_init :: 'a parser_state))"
    by (simp add: parser_init_def)
  show ?thesis
    unfolding SSEParserTransform_def
    by (simp add: parse_chunks_ascii_concat[OF assms(1) b]
        parse_chunks_ascii_concat[OF assms(2) b] assms(3))
qed

section \<open>Properties of the stream rewriter\<close>


subsection \<open>The loop and the first exception\<close>

lemma state_before_0 [simp]: "state_before p st items 0 = st"
  by (simp add: state_before_def)

lemma state_before_Suc [simp]:
  "state_before p st ((v, os) # rest) (Suc k) = state_before p (fst (p st v)) rest k"
  by (simp add: state_before_def)


lemma exception_at_Suc [simp]:
  "exception_at p st ((v, os) # rest) (Suc k) = exception_at p (fst (p st v)) rest k"
  by (simp add: exception_at_def)


lemma enqueued_at_Suc [simp]:
  "enqueued_at p st ((v, os) # rest) (Suc k) = enqueued_at p (fst (p st v)) rest k"
  by (simp add: enqueued_at_def split: prod.split sum.split option.split)



lemma first_exception_Nil [simp]: "first_exception p st [] = None"
  by (simp add: first_exception_def)


lemma values_delivered_Nil [simp]: "values_delivered p st [] = 0"
  by (simp add: values_delivered_def)



lemma can_enqueue_any [simp]: "can_enqueue (without_backpressure os) = can_enqueue os"
  by (cases os) (simp_all add: without_backpressure_def can_enqueue_def)

lemma controller_error_any [simp]:
  "controller_error e (without_backpressure os) = controller_error e os"
  by (cases os) (simp_all add: without_backpressure_def controller_error_def can_enqueue_def)


lemma rewrite_loop_released: "rs_released (rewrite_loop processor st items fin n out)"
proof (induction items arbitrary: st n out)
  case Nil
  then show ?case by (simp split: option.split)
next
  case (Cons item items)
  obtain v os where item: "item = (v, os)" by (cases item)
  obtain st' direct res where p: "processor st v = (st', direct, res)"
    by (cases "processor st v")
  show ?case
  proof (cases res)
    case (Inl err)
    then show ?thesis by (simp add: item p)
  next
    case (Inr returned)
    then show ?thesis by (cases returned) (simp_all add: item p Cons.IH)
  qed
qed








section \<open>Properties of the tool-call interceptor\<close>

lemmas stream_example_defs =
  example_env_def image_agent_def failing_tool_def ok_tool_def proc_init_def
  tool_start_def args_delta_def block_stop_def plain_event_def turn_complete_def
  one_tool_done_def recorded_use_def recorded_result_def user_message_def

lemmas interceptor_defs =
  agentStreamProcessor_def detectToolCallStart_def collectToolArguments_def
  executeAgentTool_def executeTool_try_def createAgentToolState_def resetToolState_def
  index_bound_def snapshot_def fetchToolResponse_def processor_catch_def Let_def

text \<open>
  The scenario of the specification up to the tool's execution: a tool call streamed as
  a start, two argument fragments and a stop leaves one tool-use entry and one
  tool-result entry recorded, and nothing is passed on to the output.
\<close>

lemma scenario_one_tool:
  "run_processor (example_env r) [''image''] (proc_init [user_message])
     [tool_start 1 ''analyzeImage'' ''toolu_1'', args_delta 1 ''{n'', args_delta 1 '':1}'',
      block_stop 1]
   = (one_tool_done, [], None)"
  by (simp add: stream_example_defs interceptor_defs)

text \<open>
  Claim C6, at the failing input. The tool \<open>brokenTool\<close> is called with the arguments
  \<open>{n:1}\<close> and its handler throws. \<open>executeAgentTool\<close> has pushed the tool-use entry
  before it calls the handler and does not take it back in the \<open>catch\<close>: after the
  block-stop event the tool-use list holds an entry for the dropped invocation, while
  the tool-result list is empty. The error is logged, the accumulator and the bound
  index are cleared, and the processor does not throw.
\<close>

theorem handler_failure_leaves_tool_use_entry:
  "run_processor (example_env (FetchRejects TypeError)) [''image''] (proc_init [])
     [tool_start 1 ''brokenTool'' ''toolu_1'', args_delta 1 ''{n'', args_delta 1 '':1}'',
      block_stop 1]
   = (\<lparr>tool_state =
         createAgentToolState
           \<lparr>assistantMessages :=
              [\<lparr>tu_id = Some ''toolu_1'', tu_name = ''brokenTool'',
                tu_input = JObj [(''n'', JNum 1)]\<rparr>]\<rparr>,
       history = [], requests = [],
       console = [ToolExecutionError ''brokenTool'' (JsError ''Error'' None)],
       aborted = False\<rparr>,
      [], None)"
  by (simp add: stream_example_defs interceptor_defs)

text \<open>
  What holds of a dropped invocation. The \<open>try\<close> either logs a failure and leaves the
  tool-result list as it was, or logs nothing and appends one tool-result; a parse
  failure leaves the whole state as it was. After the block-stop step the tool fields
  are cleared, whether the tool ran or failed.
\<close>

lemma executeTool_try_results:
  "(snd (executeTool_try jp hist state) \<noteq> []
      \<and> toolMessages (fst (executeTool_try jp hist state)) = toolMessages state)
   \<or> (snd (executeTool_try jp hist state) = []
      \<and> (\<exists>r. toolMessages (fst (executeTool_try jp hist state)) = toolMessages state @ [r]))"
  by (auto simp: executeTool_try_def Let_def split: option.splits sum.splits)

lemma executeTool_try_parse_failure:
  assumes "jp (currentToolArgs state) = None"
  shows "executeTool_try jp hist state
         = (state, [ToolExecutionError (currentToolName state) (JsError ''SyntaxError'' None)])"
  using assms by (simp add: executeTool_try_def)

lemma executeAgentTool_clears:
  assumes "executeAgentTool jp data state hist = Inr (True, state', logged)"
  shows "currentAgent state' = None \<and> currentToolIndex state' = Some (- 1)
         \<and> currentToolName state' = [] \<and> currentToolArgs state' = []
         \<and> currentToolId state' = Some []"
  using assms
  by (auto simp: executeAgentTool_def resetToolState_def split: if_splits option.splits prod.splits)

lemma executeAgentTool_failure_no_result:
  assumes "executeAgentTool jp data state hist = Inr (True, state', logged)"
    and "logged \<noteq> []"
  shows "toolMessages state' = toolMessages state"
proof -
  from assms(1) have e: "state' = resetToolState (fst (executeTool_try jp hist state))"
    and l: "logged = snd (executeTool_try jp hist state)"
    by (auto simp: executeAgentTool_def split: if_splits option.splits prod.splits)
  from executeTool_try_results[of jp hist state] assms(2) l
  have "toolMessages (fst (executeTool_try jp hist state)) = toolMessages state"
    by auto
  then show ?thesis by (simp add: e resetToolState_def)
qed

lemma pipe_enqueued:
  "fst (pipeResponseToController items fin)
   = map fst (filter (\<lambda>(v, os). \<not> is_envelope v)
               (takeWhile (\<lambda>(v, os). is_envelope v \<or> \<not> desiredSize_falsy os) items))"
proof (induction items)
  case Nil
  then show ?case by (cases fin) simp_all
next
  case (Cons item items)
  obtain v os where item: "item = (v, os)" by (cases item)
  obtain enq ab thrown where r: "pipeResponseToController items fin = (enq, ab, thrown)"
    by (cases "pipeResponseToController items fin")
  show ?case
    using Cons.IH by (simp add: item r)
qed

lemma pipe_enqueued_all:
  assumes "\<forall>(v, os) \<in> set items. \<not> desiredSize_falsy os"
  shows "fst (pipeResponseToController items fin)
         = filter (\<lambda>v. \<not> is_envelope v) (map fst items)"
  using assms
proof (induction items)
  case Nil
  then show ?case by (cases fin) simp_all
next
  case (Cons item items)
  obtain v os where item: "item = (v, os)" by (cases item)
  obtain enq ab thrown where r: "pipeResponseToController items fin = (enq, ab, thrown)"
    by (cases "pipeResponseToController items fin")
  from Cons.prems have "\<not> desiredSize_falsy os"
    and "\<forall>(v, os) \<in> set items. \<not> desiredSize_falsy os"
    by (simp_all add: item)
  with Cons.IH show ?case
    by (simp add: item r)
qed

text \<open>
  A turn-complete event is not taken by the three tool steps, so with a recorded
  tool-result the processor goes to \<open>fetchToolResponse\<close> and returns \<open>undefined\<close>.
\<close>

lemma turn_complete_reaches_fetch:
  assumes "toolMessages (tool_state st) \<noteq> []" and "is_turn_complete data"
  shows "agentStreamProcessor env agents st data
         = (fst (fetchToolResponse env st), snd (fetchToolResponse env st), Inr None)"
proof -
  from assms(2) obtain d where d: "ev_event data = Some ''message_delta''"
      "ev_data data = Some d" "sd_index d = None"
    by (auto simp: is_turn_complete_def split: option.splits)
  have det: "detectToolCallStart (getAgent env) data (tool_state st) agents
             = (False, tool_state st)"
    by (simp add: detectToolCallStart_def d)
  have col: "collectToolArguments data (tool_state st) = Inr (False, tool_state st)"
    by (auto simp: collectToolArguments_def d index_bound_def split: option.splits)
  have exe: "executeAgentTool (JSON5_parse env) data (tool_state st) (history st)
             = Inr (False, tool_state st, [])"
    by (auto simp: executeAgentTool_def d index_bound_def split: option.splits)
  show ?thesis
    using assms(1) by (simp add: agentStreamProcessor_def det col exe d split: prod.split)
qed

lemma fetchToolResponse_request:
  "history (fst (fetchToolResponse env st)) = history st @ [AssistantToolUses, UserToolResults]
   \<and> requests (fst (fetchToolResponse env st))
     = requests st @ [snapshot (tool_state st) (history st)
                      @ [SentAssistant (assistantMessages (tool_state st)),
                         SentUser (toolMessages (tool_state st))]]
   \<and> tool_state (fst (fetchToolResponse env st)) = tool_state st"
  by (simp add: fetchToolResponse_def Let_def snapshot_def split: fetch_result.split prod.split)

lemma fetchToolResponse_enqueued:
  assumes "fetch_messages env (snapshot (tool_state st) (history st)
                      @ [SentAssistant (assistantMessages (tool_state st)),
                         SentUser (toolMessages (tool_state st))])
           = FetchResponse True status items fin"
  shows "snd (fetchToolResponse env st) = fst (pipeResponseToController items fin)"
  using assms
  by (simp add: fetchToolResponse_def Let_def snapshot_def split: prod.split)

text \<open>
  Claim C1 as stated fails on its last part. The continuation answers with a turn-start
  event, two content events and a turn-stop event, and the outer output's desired size
  is zero when the second content event is read: the loop breaks there, and the second
  content event, which is not an envelope event, is not forwarded.
\<close>

theorem continuation_forwarding_counterexample:
  "agentStreamProcessor
     (example_env (FetchResponse True 200
        [(plain_event ''message_start'' JNull, Readable 1),
         (plain_event ''content_block_start'' JNull, Readable 1),
         (plain_event ''content_block_delta'' JNull, Readable 0),
         (plain_event ''message_stop'' JNull, Readable 1)] None))
     [''image''] one_tool_done turn_complete
   = (one_tool_done\<lparr>history := [Original user_message, AssistantToolUses, UserToolResults],
                     requests := [[SentOriginal user_message, SentAssistant [recorded_use],
                                   SentUser [recorded_result]]]\<rparr>,
      [plain_event ''content_block_start'' JNull], Inr None)
   \<and> \<not> is_envelope (plain_event ''content_block_delta'' JNull)
   \<and> plain_event ''content_block_delta'' JNull \<notin> set [plain_event ''content_block_start'' JNull]"
  by (simp add: stream_example_defs interceptor_defs is_envelope_def desiredSize_falsy_def
      desiredSize_def)

text \<open>
  Claim C1, amended. When at least one tool-result is recorded and a turn-complete
  event arrives, the processor issues exactly one continuation request; the message
  history it carries is the request's history extended by exactly one assistant message
  holding the recorded tool-use entries and one user message holding the recorded
  tool-result entries, and the request's history is extended by the same two messages.
  When the continuation answers with a successful response, its turn-start and
  turn-stop events are discarded and every other event is forwarded, in order, up to
  the first such event at which the outer output's desired size is zero or null, where
  forwarding stops; if that never happens, every other event is forwarded.
\<close>

theorem continuation_on_turn_complete:
  assumes results: "toolMessages (tool_state st) \<noteq> []"
    and turn_complete: "is_turn_complete data"
    and body: "sent = snapshot (tool_state st) (history st)
                      @ [SentAssistant (assistantMessages (tool_state st)),
                         SentUser (toolMessages (tool_state st))]"
  shows "\<exists>st' enqueued.
           agentStreamProcessor env agents st data = (st', enqueued, Inr None)
           \<and> requests st' = requests st @ [sent]
           \<and> history st' = history st @ [AssistantToolUses, UserToolResults]
           \<and> (\<forall>status items fin.
                 fetch_messages env sent = FetchResponse True status items fin \<longrightarrow>
                 enqueued = map fst (filter (\<lambda>(v, os). \<not> is_envelope v)
                              (takeWhile (\<lambda>(v, os). is_envelope v \<or> \<not> desiredSize_falsy os)
                                 items))
                 \<and> ((\<forall>(v, os) \<in> set items. \<not> desiredSize_falsy os)
                      \<longrightarrow> enqueued = filter (\<lambda>v. \<not> is_envelope v) (map fst items)))"
proof -
  let ?st' = "fst (fetchToolResponse env st)"
  let ?enq = "snd (fetchToolResponse env st)"
  have 1: "agentStreamProcessor env agents st data = (?st', ?enq, Inr None)"
    by (rule turn_complete_reaches_fetch[OF results turn_complete])
  have 2: "requests ?st' = requests st @ [sent]"
    and 3: "history ?st' = history st @ [AssistantToolUses, UserToolResults]"
    using fetchToolResponse_request[of env st] by (simp_all add: body)
  have 4: "?enq = fst (pipeResponseToController items fin)"
    if "fetch_messages env sent = FetchResponse True status items fin" for status items fin
    using that unfolding body by (rule fetchToolResponse_enqueued)
  show ?thesis
  proof (intro exI conjI allI impI)
    show "agentStreamProcessor env agents st data = (?st', ?enq, Inr None)" by (rule 1)
    show "requests ?st' = requests st @ [sent]" by (rule 2)
    show "history ?st' = history st @ [AssistantToolUses, UserToolResults]" by (rule 3)
    show "?enq = map fst (filter (\<lambda>(v, os). \<not> is_envelope v)
                   (takeWhile (\<lambda>(v, os). is_envelope v \<or> \<not> desiredSize_falsy os) items))"
      if "fetch_messages env sent = FetchResponse True status items fin" for status items fin
      using 4[OF that] by (simp only: pipe_enqueued)
    show "?enq = filter (\<lambda>v. \<not> is_envelope v) (map fst items)"
      if "fetch_messages env sent = FetchResponse True status items fin"
        and "\<forall>(v, os) \<in> set items. \<not> desiredSize_falsy os" for status items fin
      using 4[OF that(1)] that(2) by (simp only: pipe_enqueued_all)
  qed
qed

theorem continuation_on_turn_complete_witness:
  "toolMessages (tool_state one_tool_done) \<noteq> []
   \<and> is_turn_complete turn_complete
   \<and> (\<exists>st'. agentStreamProcessor
        (example_env (FetchResponse True 200
           [(plain_event ''message_start'' JNull, Readable 1),
            (plain_event ''content_block_start'' JNull, Readable 1),
            (plain_event ''content_block_delta'' JNull, Readable 1),
            (plain_event ''message_stop'' JNull, Readable 1)] None))
        [''image''] one_tool_done turn_complete
       = (st', [plain_event ''content_block_start'' JNull,
                plain_event ''content_block_delta'' JNull], Inr None)
       \<and> requests st' = [[SentOriginal user_message, SentAssistant [recorded_use],
                           SentUser [recorded_result]]])"
proof -
  let ?items = "[(plain_event ''message_start'' JNull, Readable 1),
            (plain_event ''content_block_start'' JNull, Readable 1),
            (plain_event ''content_block_delta'' JNull, Readable 1),
            (plain_event ''message_stop'' JNull, Readable 1)]"
  let ?env = "example_env (FetchResponse True 200 ?items None)"
  let ?sent = "[SentOriginal user_message, SentAssistant [recorded_use],
                SentUser [recorded_result]]"
  have h1: "toolMessages (tool_state one_tool_done) \<noteq> []"
    by (simp add: one_tool_done_def createAgentToolState_def)
  have h2: "is_turn_complete turn_complete"
    by (simp add: is_turn_complete_def turn_complete_def plain_event_def)
  have h3: "?sent = snapshot (tool_state one_tool_done) (history one_tool_done)
                      @ [SentAssistant (assistantMessages (tool_state one_tool_done)),
                         SentUser (toolMessages (tool_state one_tool_done))]"
    by (simp add: one_tool_done_def createAgentToolState_def snapshot_def)
  have h4: "fetch_messages ?env ?sent = FetchResponse True 200 ?items None"
    by (simp add: example_env_def)
  have h5: "\<forall>(v, os) \<in> set ?items. \<not> desiredSize_falsy os"
    by (simp add: desiredSize_falsy_def desiredSize_def)
  from continuation_on_turn_complete[OF h1 h2 h3, of ?env "[''image'']"]
  obtain st' enqueued where
    r: "agentStreamProcessor ?env [''image''] one_tool_done turn_complete
        = (st', enqueued, Inr None)"
    and q: "requests st' = requests one_tool_done @ [?sent]"
    and e: "\<forall>status items fin.
              fetch_messages ?env ?sent = FetchResponse True status items fin \<longrightarrow>
              enqueued = map fst (filter (\<lambda>(v, os). \<not> is_envelope v)
                           (takeWhile (\<lambda>(v, os). is_envelope v \<or> \<not> desiredSize_falsy os)
                              items))
              \<and> ((\<forall>(v, os) \<in> set items. \<not> desiredSize_falsy os)
                   \<longrightarrow> enqueued = filter (\<lambda>v. \<not> is_envelope v) (map fst items))"
    by blast
  from e h4 h5 have "enqueued = filter (\<lambda>v. \<not> is_envelope v) (map fst ?items)" by blast
  then have "enqueued = [plain_event ''content_block_start'' JNull,
                         plain_event ''content_block_delta'' JNull]"
    by (simp add: is_envelope_def plain_event_def)
  with r q h1 h2 show ?thesis by (simp add: one_tool_done_def)
qed

text \<open>
  Claim C10. A continuation leaves the recorded tool-use and tool-result lists as they
  are. So when a second turn-complete event follows on the same stream, a second
  continuation request is issued, and the history it carries is that of the first
  request extended once more by an assistant message with the same tool-use entries and
  a user message with the same tool-result entries.
\<close>

theorem continuation_repeats_recorded_messages:
  assumes results: "toolMessages (tool_state st) \<noteq> []"
    and first_delta: "is_turn_complete data1"
    and second_delta: "is_turn_complete data2"
    and body: "sent = snapshot (tool_state st) (history st)
                      @ [SentAssistant (assistantMessages (tool_state st)),
                         SentUser (toolMessages (tool_state st))]"
  shows "\<exists>st1 out1 st2 out2.
           agentStreamProcessor env agents st data1 = (st1, out1, Inr None)
           \<and> toolMessages (tool_state st1) = toolMessages (tool_state st)
           \<and> assistantMessages (tool_state st1) = assistantMessages (tool_state st)
           \<and> agentStreamProcessor env agents st1 data2 = (st2, out2, Inr None)
           \<and> requests st2
               = requests st @ [sent, sent @ [SentAssistant (assistantMessages (tool_state st)),
                                               SentUser (toolMessages (tool_state st))]]
           \<and> history st2
               = history st @ [AssistantToolUses, UserToolResults,
                               AssistantToolUses, UserToolResults]"
proof -
  let ?st1 = "fst (fetchToolResponse env st)"
  let ?st2 = "fst (fetchToolResponse env ?st1)"
  have ts: "tool_state ?st1 = tool_state st"
    using fetchToolResponse_request[of env st] by blast
  have 1: "agentStreamProcessor env agents st data1
           = (?st1, snd (fetchToolResponse env st), Inr None)"
    by (rule turn_complete_reaches_fetch[OF results first_delta])
  have results1: "toolMessages (tool_state ?st1) \<noteq> []"
    using results by (simp add: ts)
  have 2: "agentStreamProcessor env agents ?st1 data2
           = (?st2, snd (fetchToolResponse env ?st1), Inr None)"
    by (rule turn_complete_reaches_fetch[OF results1 second_delta])
  have h1: "history ?st1 = history st @ [AssistantToolUses, UserToolResults]"
    and r1: "requests ?st1 = requests st @ [sent]"
    using fetchToolResponse_request[of env st] by (simp_all add: body)
  have h2: "history ?st2 = history ?st1 @ [AssistantToolUses, UserToolResults]"
    and r2: "requests ?st2 = requests ?st1 @ [snapshot (tool_state ?st1) (history ?st1)
                      @ [SentAssistant (assistantMessages (tool_state ?st1)),
                         SentUser (toolMessages (tool_state ?st1))]]"
    using fetchToolResponse_request[of env ?st1] by simp_all
  have r2': "requests ?st2
             = requests st @ [sent, sent @ [SentAssistant (assistantMessages (tool_state st)),
                                             SentUser (toolMessages (tool_state st))]]"
    unfolding r2 r1 h1 ts by (simp add: body snapshot_def)
  show ?thesis
    using 1 2 r2' h2 h1 ts by auto
qed

theorem continuation_repeats_recorded_messages_witness:
  "toolMessages (tool_state one_tool_done) \<noteq> []
   \<and> is_turn_complete turn_complete
   \<and> (\<exists>st1 out1 st2 out2.
        agentStreamProcessor (example_env (FetchResponse False 500 [] None)) [''image'']
          one_tool_done turn_complete = (st1, out1, Inr None)
        \<and> agentStreamProcessor (example_env (FetchResponse False 500 [] None)) [''image'']
            st1 turn_complete = (st2, out2, Inr None)
        \<and> requests st2
            = [[SentOriginal user_message, SentAssistant [recorded_use],
                SentUser [recorded_result]],
               [SentOriginal user_message, SentAssistant [recorded_use],
                SentUser [recorded_result], SentAssistant [recorded_use],
                SentUser [recorded_result]]])"
proof -
  let ?env = "example_env (FetchResponse False 500 [] None)"
  let ?sent = "[SentOriginal user_message, SentAssistant [recorded_use],
                SentUser [recorded_result]]"
  have h1: "toolMessages (tool_state one_tool_done) \<noteq> []"
    by (simp add: one_tool_done_def createAgentToolState_def)
  have h2: "is_turn_complete turn_complete"
    by (simp add: is_turn_complete_def turn_complete_def plain_event_def)
  have h3: "?sent = snapshot (tool_state one_tool_done) (history one_tool_done)
                      @ [SentAssistant (assistantMessages (tool_state one_tool_done)),
                         SentUser (toolMessages (tool_state one_tool_done))]"
    by (simp add: one_tool_done_def createAgentToolState_def snapshot_def)
  from continuation_repeats_recorded_messages[OF h1 h2 h2 h3, of ?env "[''image'']"]
  obtain st1 out1 st2 out2 where
    a: "agentStreamProcessor ?env [''image''] one_tool_done turn_complete
        = (st1, out1, Inr None)"
    and b: "agentStreamProcessor ?env [''image''] st1 turn_complete = (st2, out2, Inr None)"
    and c: "requests st2
            = requests one_tool_done
              @ [?sent, ?sent @ [SentAssistant (assistantMessages (tool_state one_tool_done)),
                                 SentUser (toolMessages (tool_state one_tool_done))]]"
    by blast
  have "requests st2 = [?sent, ?sent @ [SentAssistant [recorded_use],
                                          SentUser [recorded_result]]]"
    unfolding c by (simp add: one_tool_done_def createAgentToolState_def)
  with a b h1 h2 show ?thesis by auto
qed

text \<open>
  No step of the processor removes a recorded entry: after any event the tool-use and
  tool-result lists extend what they were before.
\<close>

lemma recorded_extends_refl [simp]: "recorded_extends s s"
  by (simp add: recorded_extends_def)

lemma detect_keeps_recorded:
  "recorded_extends state (snd (detectToolCallStart get_agent data state agents))"
  by (simp add: detectToolCallStart_def recorded_extends_def split: option.split)

lemma collect_keeps_recorded:
  "collectToolArguments data state = Inr (b, state') \<Longrightarrow> recorded_extends state state'"
  by (auto simp: collectToolArguments_def recorded_extends_def split: if_splits option.splits)

lemma executeTool_try_keeps_recorded:
  "recorded_extends state (fst (executeTool_try jp hist state))"
  by (simp add: executeTool_try_def recorded_extends_def Let_def split: option.split sum.split)

lemma execute_keeps_recorded:
  assumes "executeAgentTool jp data state hist = Inr (b, state', logged)"
  shows "recorded_extends state state'"
proof (cases b)
  case True
  with assms have "state' = resetToolState (fst (executeTool_try jp hist state))"
    by (auto simp: executeAgentTool_def split: if_splits option.splits prod.splits)
  then show ?thesis
    using executeTool_try_keeps_recorded[of state jp hist]
    by (simp add: recorded_extends_def resetToolState_def)
next
  case False
  with assms have "state' = state"
    by (auto simp: executeAgentTool_def split: if_splits option.splits prod.splits)
  then show ?thesis by simp
qed

lemma processor_catch_tool_state: "tool_state (fst (processor_catch st e)) = tool_state st"
  by (simp add: processor_catch_def Let_def)

lemma fetchToolResponse_tool_state: "tool_state (fst (fetchToolResponse env st)) = tool_state st"
  by (simp add: fetchToolResponse_def Let_def split: fetch_result.split prod.split)

lemma processor_keeps_recorded_entries:
  "recorded_extends (tool_state st) (tool_state (fst (agentStreamProcessor env agents st data)))"
proof -
  obtain b1 s1 where det: "detectToolCallStart (getAgent env) data (tool_state st) agents = (b1, s1)"
    by (cases "detectToolCallStart (getAgent env) data (tool_state st) agents")
  have s1: "recorded_extends (tool_state st) s1"
    using detect_keeps_recorded[of "tool_state st" "getAgent env" data agents] by (simp add: det)
  show ?thesis
  proof (cases b1)
    case True
    then show ?thesis using s1 by (simp add: agentStreamProcessor_def det)
  next
    case not_started: False
    show ?thesis
    proof (cases "collectToolArguments data (tool_state st)")
      case (Inl e)
      then show ?thesis
        using not_started by (simp add: agentStreamProcessor_def det processor_catch_tool_state)
    next
      case (Inr r)
      obtain b2 s2 where r: "r = (b2, s2)" by (cases r)
      have s2: "recorded_extends (tool_state st) s2"
        using collect_keeps_recorded Inr r by blast
      show ?thesis
      proof (cases b2)
        case True
        then show ?thesis
          using not_started s2 by (simp add: agentStreamProcessor_def det Inr r)
      next
        case not_collected: False
        show ?thesis
        proof (cases "executeAgentTool (JSON5_parse env) data (tool_state st) (history st)")
          case (Inl e)
          then show ?thesis
            using not_started not_collected
            by (simp add: agentStreamProcessor_def det Inr r processor_catch_tool_state)
        next
          case exe: (Inr r3)
          obtain b3 s3 logged where r3: "r3 = (b3, s3, logged)" by (cases r3)
          have s3: "recorded_extends (tool_state st) s3"
            using execute_keeps_recorded exe r3 by blast
          have f: "tool_state (fst (case fetchToolResponse env st of
                                      (st', enqueued) \<Rightarrow> (st', enqueued, Inr None :: js_error + SSEEvent option)))
                   = tool_state st"
            using fetchToolResponse_tool_state[of env st]
            by (cases "fetchToolResponse env st") simp
          show ?thesis
            using not_started not_collected s3
            by (cases b3) (simp_all add: agentStreamProcessor_def det Inr r exe r3 f)
        qed
      qed
    qed
  qed
qed


end
